theory Spec2Isabelle
  imports Complex_Main "HOL-Library.Sublist"
begin

section \<open>Strings as the service sees them\<close>

text \<open>
  A JavaScript string is modelled as a \<^typ>\<open>string\<close> whose characters are the code units
  below 256.  \<open>is_space\<close> is the part of the regular-expression class \<^verbatim>\<open>\s\<close> (and of
  \<^verbatim>\<open>String.prototype.trim\<close>) that lies in this range: tab, line feed, vertical tab,
  form feed, carriage return, space and the no-break space.
\<close>

definition is_space :: "char \<Rightarrow> bool" where
  "is_space c \<longleftrightarrow> c \<in> {CHR 0x09, CHR 0x0A, CHR 0x0B, CHR 0x0C, CHR 0x0D, CHR 0x20, CHR 0xA0}"

definition trim_end :: "string \<Rightarrow> string" where
  "trim_end s = rev (dropWhile is_space (rev s))"

definition trim :: "string \<Rightarrow> string" where
  "trim s = trim_end (dropWhile is_space s)"

definition startsWith :: "string \<Rightarrow> string \<Rightarrow> bool" where
  "startsWith s p \<longleftrightarrow> take (length p) s = p"

definition endsWith :: "string \<Rightarrow> string \<Rightarrow> bool" where
  "endsWith s p \<longleftrightarrow> length p \<le> length s \<and> drop (length s - length p) s = p"

text \<open>\<^verbatim>\<open>s.split(/\s+/).length\<close>: one more than the number of maximal whitespace runs, so
  the empty string counts 1 and leading or trailing whitespace adds an empty piece.\<close>

fun split_ws_count :: "bool \<Rightarrow> string \<Rightarrow> nat" where
  "split_ws_count in_run [] = 1"
| "split_ws_count in_run (c # cs) =
     (if is_space c then (if in_run then 0 else 1) + split_ws_count True cs
      else split_ws_count False cs)"

definition split_ws_length :: "string \<Rightarrow> nat" where
  "split_ws_length s = split_ws_count False s"

text \<open>Decimal rendering of an array index inside a template literal.\<close>

definition digit_char :: "nat \<Rightarrow> char" where
  "digit_char d = char_of (48 + d)"

function show_nat :: "nat \<Rightarrow> string" where
  "show_nat n = (if n < 10 then [digit_char n] else show_nat (n div 10) @ [digit_char (n mod 10)])"
  by pat_completeness auto
termination
  by (relation "measure id") auto

declare show_nat.simps [simp del]

text \<open>\<^verbatim>\<open>xs.join(', ')\<close>\<close>

fun join_comma :: "string list \<Rightarrow> string" where
  "join_comma [] = []"
| "join_comma [x] = x"
| "join_comma (x # y # ys) = x @ '', '' @ join_comma (y # ys)"

section \<open>Errors\<close>

text \<open>
  Every \<^verbatim>\<open>throw\<close> of the source is a value.  \<open>Error m\<close> is \<^verbatim>\<open>new Error(m)\<close>;
  \<open>Failed p e\<close> is \<^verbatim>\<open>new Error(p + e.message)\<close>, the wrapper the service puts around
  whatever it caught; \<open>TypeError\<close> is the engine's error on reading a property of
  \<^verbatim>\<open>undefined\<close>; \<open>TransportError\<close> is a rejection of the external model call;
  \<open>ValidationError ps\<close> is the store's rejection of a document, with the failing paths;
  \<open>VersionError\<close> is its rejection of a write from a copy that is no longer current,
  \<open>DocumentNotFoundError\<close> its rejection of an update that matches no stored document.
\<close>

datatype error =
    Error string
  | Failed string error
  | TypeError
  | TransportError string
  | ValidationError "string list"
  | VersionError
  | DocumentNotFoundError

section \<open>The AI service: extraction and parsing\<close>

text \<open>
  The response envelope of the model client.  \<open>e_text\<close> is the \<^verbatim>\<open>text\<close> property: a
  function returning a string, a string, or neither.  \<open>e_candidates\<close> is the
  \<^verbatim>\<open>candidates\<close> array (absent and empty behave alike: \<^verbatim>\<open>candidates[0]\<close> is
  \<^verbatim>\<open>undefined\<close>); a candidate is its \<^verbatim>\<open>content.parts\<close> array when it has one, and a part
  is its \<^verbatim>\<open>text\<close> when it has one.
\<close>

datatype text_field = TextFn string | TextStr string | NoText

record envelope =
  e_text :: text_field
  e_candidates :: "string option list option list"

text \<open>The result is \<open>None\<close> where the source returns \<^verbatim>\<open>undefined\<close> (a first part with no
  \<^verbatim>\<open>text\<close>); an empty \<^verbatim>\<open>parts\<close> array makes \<^verbatim>\<open>parts[0].text\<close> throw.\<close>

definition extractText :: "envelope \<Rightarrow> error + string option" where
  "extractText response =
     (case e_text response of
        TextFn s \<Rightarrow> Inr (Some s)
      | TextStr s \<Rightarrow> Inr (Some s)
      | NoText \<Rightarrow>
          (case e_candidates response of
             Some parts # _ \<Rightarrow> (case parts of [] \<Rightarrow> Inl TypeError | p # _ \<Rightarrow> Inr p)
           | _ \<Rightarrow> Inl (Error ''Could not extract text from AI response'')))"

text \<open>\<^verbatim>\<open>s.replace(/^```json\s*/, '')\<close>, \<^verbatim>\<open>s.replace(/^```\s*/, '')\<close> and
  \<^verbatim>\<open>s.replace(/\s*```$/, '')\<close>.\<close>

definition strip_json_fence_start :: "string \<Rightarrow> string" where
  "strip_json_fence_start s =
     (if startsWith s ''```json'' then dropWhile is_space (drop 7 s) else s)"

definition strip_fence_start :: "string \<Rightarrow> string" where
  "strip_fence_start s =
     (if startsWith s ''```'' then dropWhile is_space (drop 3 s) else s)"

definition strip_fence_end :: "string \<Rightarrow> string" where
  "strip_fence_end s =
     (if endsWith s ''```'' then trim_end (take (length s - 3) s) else s)"

definition clean_response :: "string \<Rightarrow> string" where
  "clean_response text =
     (let cleanText = trim text in
      if startsWith cleanText ''```json'' then strip_fence_end (strip_json_fence_start cleanText)
      else if startsWith cleanText ''```'' then strip_fence_end (strip_fence_start cleanText)
      else cleanText)"

text \<open>
  \<open>JSON_parse\<close> is the language's \<^verbatim>\<open>JSON.parse\<close>, a parameter: \<open>None\<close> where it throws.
  A text of \<open>None\<close> (\<^verbatim>\<open>undefined\<close>) makes \<^verbatim>\<open>text.trim()\<close> throw inside the
  \<^verbatim>\<open>try\<close>, which the \<^verbatim>\<open>catch\<close> turns into the same error.
\<close>

definition parseJSONResponse :: "(string \<Rightarrow> 'a option) \<Rightarrow> string option \<Rightarrow> error + 'a" where
  "parseJSONResponse JSON_parse text =
     (case text of
        None \<Rightarrow> Inl (Error ''AI returned invalid JSON format'')
      | Some t \<Rightarrow>
          (case JSON_parse (clean_response t) of
             None \<Rightarrow> Inl (Error ''AI returned invalid JSON format'')
           | Some v \<Rightarrow> Inr v))"

section \<open>What the model is asked to return\<close>

text \<open>
  The parsed JSON, typed after the shapes the two prompts ask for.  A field is \<open>None\<close> when
  the property is absent (or \<^verbatim>\<open>null\<close>) and carries a value of the prompt's JSON type
  otherwise; numbers are rationals, which every finite JSON number is.  Only the properties
  the service, the controllers and the save hook read are kept.
\<close>

record lessonStub =
  ls_title :: "string option"
  ls_order :: "rat option"

record moduleData =
  md_title :: "string option"
  md_description :: "string option"
  md_order :: "rat option"
  md_objectives :: "string list option"
  md_lessons :: "lessonStub list option"

record courseData =
  cd_title :: "string option"
  cd_description :: "string option"
  cd_difficulty :: "string option"
  cd_estimatedHours :: "rat option"
  cd_tags :: "string list option"
  cd_modules :: "moduleData list option"

record block =
  b_type :: "string option"
  b_text :: "string option"
  b_question :: "string option"
  b_options :: "string list option"
  b_items :: "string list option"

record lessonData =
  ld_title :: "string option"
  ld_objectives :: "string list option"
  ld_estimatedMinutes :: "rat option"
  ld_content :: "block list option"

text \<open>The suggestions call returns whatever JSON value the text parses to.\<close>

datatype json =
    JNull
  | JBool bool
  | JNum rat
  | JStr string
  | JArr "json list"
  | JObj "(string \<times> json) list"

text \<open>JavaScript truthiness of an optional string, number and array, and \<^verbatim>\<open>x || d\<close>.\<close>

definition truthy_str :: "string option \<Rightarrow> bool" where
  "truthy_str x = (case x of None \<Rightarrow> False | Some s \<Rightarrow> s \<noteq> [])"

definition truthy_num :: "rat option \<Rightarrow> bool" where
  "truthy_num x = (case x of None \<Rightarrow> False | Some n \<Rightarrow> n \<noteq> 0)"

definition str_or :: "string option \<Rightarrow> string \<Rightarrow> string" where
  "str_or x d = (case x of None \<Rightarrow> d | Some s \<Rightarrow> if s = [] then d else s)"

definition num_or :: "rat option \<Rightarrow> rat \<Rightarrow> rat" where
  "num_or x d = (case x of None \<Rightarrow> d | Some n \<Rightarrow> if n = 0 then d else n)"

definition arr_or :: "'a list option \<Rightarrow> 'a list \<Rightarrow> 'a list" where
  "arr_or x d = (case x of None \<Rightarrow> d | Some xs \<Rightarrow> xs)"

section \<open>The AI service: validation\<close>

definition then_try :: "error + 'a \<Rightarrow> ('a \<Rightarrow> error + 'b) \<Rightarrow> error + 'b" where
  "then_try r f = (case r of Inl e \<Rightarrow> Inl e | Inr v \<Rightarrow> f v)"

text \<open>The \<^verbatim>\<open>forEach\<close> over the modules, with the running index; the first throw ends it.\<close>

fun validate_modules :: "nat \<Rightarrow> moduleData list \<Rightarrow> error + unit" where
  "validate_modules index [] = Inr ()"
| "validate_modules index (m # ms) =
     (if \<not> truthy_str (md_title m) then
        Inl (Error (''Module '' @ show_nat index @ '' missing title''))
      else if (case md_lessons m of None \<Rightarrow> True | Some ls \<Rightarrow> length ls = 0) then
        Inl (Error (''Module '' @ [CHR 0x22] @ the (md_title m) @ [CHR 0x22] @
                    '' must have at least one lesson''))
      else validate_modules (Suc index) ms)"

definition validateCourseStructure :: "courseData \<Rightarrow> error + unit" where
  "validateCourseStructure courseData =
     (let missing =
            (if \<not> truthy_str (cd_title courseData) then [''title''] else []) @
            (if \<not> truthy_str (cd_description courseData) then [''description''] else []) @
            (if cd_modules courseData = None then [''modules''] else [])
      in if length missing > 0 then
           Inl (Error (''Course data missing required fields: '' @ join_comma missing))
         else if (case cd_modules courseData of None \<Rightarrow> True | Some ms \<Rightarrow> length ms = 0) then
           Inl (Error ''Course must have at least one module'')
         else validate_modules 0 (the (cd_modules courseData)))"

definition validTypes :: "string list" where
  "validTypes = [''heading'', ''paragraph'', ''code'', ''list'', ''video'', ''mcq'', ''image'']"

fun validate_blocks :: "nat \<Rightarrow> block list \<Rightarrow> error + unit" where
  "validate_blocks index [] = Inr ()"
| "validate_blocks index (b # bs) =
     (if \<not> truthy_str (b_type b) then
        Inl (Error (''Content block '' @ show_nat index @ '' missing type''))
      else if the (b_type b) \<notin> set validTypes then
        Inl (Error (''Invalid content block type: '' @ the (b_type b)))
      else validate_blocks (Suc index) bs)"

definition validateLessonStructure :: "lessonData \<Rightarrow> error + unit" where
  "validateLessonStructure lessonData =
     (let missing =
            (if \<not> truthy_str (ld_title lessonData) then [''title''] else []) @
            (if ld_content lessonData = None then [''content''] else [])
      in if length missing > 0 then
           Inl (Error (''Lesson data missing required fields: '' @ join_comma missing))
         else if (case ld_content lessonData of None \<Rightarrow> True | Some bs \<Rightarrow> length bs = 0) then
           Inl (Error ''Lesson must have at least one content block'')
         else validate_blocks 0 (the (ld_content lessonData)))"

section \<open>The AI service: the three generation calls\<close>

text \<open>
  The external call \<^verbatim>\<open>this.ai.models.generateContent\<close> is not part of the program: its
  outcome is the argument \<open>call\<close>, \<open>Inl\<close> a rejection and \<open>Inr\<close> the envelope.  The prompt
  only feeds that call and is not modelled.
\<close>

definition generateCourse_service ::
    "(string \<Rightarrow> courseData option) \<Rightarrow> error + envelope \<Rightarrow> error + courseData" where
  "generateCourse_service JSON_parse call =
     (case then_try call (\<lambda>response.
             then_try (extractText response) (\<lambda>text.
             then_try (parseJSONResponse JSON_parse text) (\<lambda>courseData.
             then_try (validateCourseStructure courseData) (\<lambda>_. Inr courseData)))) of
        Inl e \<Rightarrow> Inl (Failed ''Failed to generate course: '' e)
      | Inr courseData \<Rightarrow> Inr courseData)"

definition generateLesson_service ::
    "(string \<Rightarrow> lessonData option) \<Rightarrow> error + envelope \<Rightarrow> error + lessonData" where
  "generateLesson_service JSON_parse call =
     (case then_try call (\<lambda>response.
             then_try (extractText response) (\<lambda>text.
             then_try (parseJSONResponse JSON_parse text) (\<lambda>lessonData.
             then_try (validateLessonStructure lessonData) (\<lambda>_. Inr lessonData)))) of
        Inl e \<Rightarrow> Inl (Failed ''Failed to generate lesson: '' e)
      | Inr lessonData \<Rightarrow> Inr lessonData)"


section \<open>The persisted documents\<close>

text \<open>
  The three Mongoose models.  A document is a record of its schema's paths; a path the
  schema does not require is an \<open>option\<close>.  Identifiers are natural numbers, drawn from a
  counter when a document is constructed.  \<open>l_version\<close> is the version key \<^verbatim>\<open>__v\<close> of a
  lesson, which a save that assigns an array path checks and increments; the pushes onto a
  module's and a course's reference list increment theirs without checking it, so those keys
  decide nothing and are left out, as are the audio sub-document of a lesson, which none of
  the operations below touches, and the timestamps.
\<close>

type_synonym objectId = nat

record course_doc =
  c_id :: objectId
  c_title :: "string option"
  c_description :: "string option"
  c_creator :: string
  c_modules :: "objectId list"
  c_tags :: "string list"
  c_isPublic :: bool
  c_difficulty :: string
  c_estimatedHours :: "rat option"
  c_enrollmentCount :: nat

record module_doc =
  m_id :: objectId
  m_title :: "string option"
  m_description :: "string option"
  m_course :: objectId
  m_lessons :: "objectId list"
  m_order :: rat
  m_estimatedHours :: "rat option"
  m_objectives :: "string list"
  m_isCompleted :: bool

record lesson_doc =
  l_id :: objectId
  l_title :: "string option"
  l_content :: "block list"
  l_objectives :: "string list"
  l_module :: objectId
  l_order :: rat
  l_isEnriched :: bool
  l_estimatedMinutes :: "rat option"
  l_difficulty :: string
  l_tags :: "string list"
  l_readingTime :: "nat option"
  l_version :: nat

record store =
  courses :: "course_doc list"
  modules :: "module_doc list"
  lessons :: "lesson_doc list"
  next_id :: objectId

definition fresh_id :: "store \<Rightarrow> objectId \<times> store" where
  "fresh_id s = (next_id s, s\<lparr>next_id := Suc (next_id s)\<rparr>)"

text \<open>Writing a document: it replaces the stored one with its identifier, or is added.\<close>

definition upsert :: "('d \<Rightarrow> objectId) \<Rightarrow> 'd \<Rightarrow> 'd list \<Rightarrow> 'd list" where
  "upsert key d ds =
     (if key d \<in> set (map key ds) then map (\<lambda>x. if key x = key d then d else x) ds
      else ds @ [d])"

text \<open>The schema setters \<^verbatim>\<open>trim: true\<close> and \<^verbatim>\<open>lowercase: true\<close>.\<close>

definition to_lower_char :: "char \<Rightarrow> char" where
  "to_lower_char c =
     (let n = (of_char c :: nat) in
      if (65 \<le> n \<and> n \<le> 90) \<or> (192 \<le> n \<and> n \<le> 222 \<and> n \<noteq> 215) then char_of (n + 32) else c)"

definition set_trim :: "string option \<Rightarrow> string option" where
  "set_trim x = map_option trim x"

definition set_tag :: "string \<Rightarrow> string" where
  "set_tag t = map to_lower_char (trim t)"

subsection \<open>Validators\<close>

text \<open>Each function lists the paths whose validators fail, in schema order.  A required
  string fails when it is absent or empty.\<close>

definition difficulties :: "string list" where
  "difficulties = [''beginner'', ''intermediate'', ''advanced'']"

definition required_str_fails :: "string option \<Rightarrow> bool" where
  "required_str_fails x = (case x of None \<Rightarrow> True | Some s \<Rightarrow> s = [])"

definition maxlength_fails :: "nat \<Rightarrow> string option \<Rightarrow> bool" where
  "maxlength_fails n x = (case x of None \<Rightarrow> False | Some s \<Rightarrow> length s > n)"

definition range_fails :: "rat \<Rightarrow> rat \<Rightarrow> rat option \<Rightarrow> bool" where
  "range_fails lo hi x = (case x of None \<Rightarrow> False | Some v \<Rightarrow> v < lo \<or> v > hi)"

definition course_errors :: "course_doc \<Rightarrow> string list" where
  "course_errors c =
     (if required_str_fails (c_title c) \<or> maxlength_fails 200 (c_title c) then [''title''] else []) @
     (if maxlength_fails 1000 (c_description c) then [''description''] else []) @
     (if c_creator c = [] then [''creator''] else []) @
     (if list_ex (\<lambda>t. length t > 50) (c_tags c) then [''tags''] else []) @
     (if c_difficulty c \<notin> set difficulties then [''difficulty''] else []) @
     (if range_fails 0 1000 (c_estimatedHours c) then [''estimatedHours''] else [])"

definition module_errors :: "module_doc \<Rightarrow> string list" where
  "module_errors m =
     (if required_str_fails (m_title m) \<or> maxlength_fails 200 (m_title m) then [''title''] else []) @
     (if maxlength_fails 500 (m_description m) then [''description''] else []) @
     (if m_order m < 0 then [''order''] else []) @
     (if range_fails 0 100 (m_estimatedHours m) then [''estimatedHours''] else []) @
     (if list_ex (\<lambda>t. length t > 200) (m_objectives m) then [''objectives''] else [])"

definition lesson_errors :: "lesson_doc \<Rightarrow> string list" where
  "lesson_errors l =
     (if required_str_fails (l_title l) \<or> maxlength_fails 200 (l_title l) then [''title''] else []) @
     (if length (l_content l) = 0 then [''content''] else []) @
     (if list_ex (\<lambda>t. length t > 200) (l_objectives l) then [''objectives''] else []) @
     (if l_order l < 0 then [''order''] else []) @
     (if range_fails 1 240 (l_estimatedMinutes l) then [''estimatedMinutes''] else []) @
     (if l_difficulty l \<notin> set difficulties then [''difficulty''] else []) @
     (if list_ex (\<lambda>t. length t > 30) (l_tags l) then [''tags''] else []) @
     (if (case l_readingTime l of None \<Rightarrow> False | Some r \<Rightarrow> r < 1) then [''readingTime''] else [])"

subsection \<open>The lesson's save hook\<close>

text \<open>\<^verbatim>\<open>lessonSchema.pre('save')\<close>: the words of headings, paragraphs, questions with
  their options, and list items; \<^verbatim>\<open>Math.max(1, Math.ceil(wordCount / 200))\<close>.\<close>

definition block_words :: "block \<Rightarrow> nat" where
  "block_words b =
     (if b_type b = Some ''paragraph'' \<or> b_type b = Some ''heading'' then
        split_ws_length (str_or (b_text b) [])
      else if b_type b = Some ''mcq'' then
        split_ws_length (str_or (b_question b) []) +
        (case b_options b of None \<Rightarrow> 0 | Some os \<Rightarrow> sum_list (map split_ws_length os))
      else if b_type b = Some ''list'' \<and> b_items b \<noteq> None then
        sum_list (map split_ws_length (the (b_items b)))
      else 0)"

definition wordCount :: "block list \<Rightarrow> nat" where
  "wordCount content = sum_list (map block_words content)"

definition reading_time :: "block list \<Rightarrow> nat" where
  "reading_time content = max 1 ((wordCount content + 199) div 200)"

definition pre_save :: "bool \<Rightarrow> lesson_doc \<Rightarrow> lesson_doc" where
  "pre_save content_modified l =
     (if content_modified then l\<lparr>l_readingTime := Some (reading_time (l_content l))\<rparr> else l)"

subsection \<open>Saving\<close>

text \<open>\<^verbatim>\<open>doc.save()\<close>: validation first, then the schema's own save hook, then the write.
  The store itself never fails in this model; a save fails only through a validator or, for
  a lesson, through the match of the update.\<close>

definition course_save :: "store \<Rightarrow> course_doc \<Rightarrow> error + store" where
  "course_save s c =
     (if course_errors c = [] then Inr (s\<lparr>courses := upsert c_id c (courses s)\<rparr>)
      else Inl (ValidationError (course_errors c)))"

definition module_save :: "store \<Rightarrow> module_doc \<Rightarrow> error + store" where
  "module_save s m =
     (if module_errors m = [] then Inr (s\<lparr>modules := upsert m_id m (modules s)\<rparr>)
      else Inl (ValidationError (module_errors m)))"

text \<open>A lesson is saved either as a new document (\<open>loaded = None\<close>), which is inserted,
  or as a copy read from the store earlier (\<open>loaded\<close> is that copy as it was read).  The
  save of a copy is an update of the stored document: it writes the paths whose value differs
  from the loaded one (\<open>written\<close>) and leaves the others as they are stored.
  \<open>content_modified\<close> is what \<^verbatim>\<open>this.isModified('content')\<close> answers in the save hook.
  When an array path (\<^verbatim>\<open>content\<close>, \<^verbatim>\<open>objectives\<close>, \<^verbatim>\<open>tags\<close>) has been assigned a new
  value, the update matches only the version the copy was loaded with and increments it; an
  update that matches nothing fails, after the hook has run.\<close>

definition written :: "'a \<Rightarrow> 'a \<Rightarrow> 'a \<Rightarrow> 'a" where
  "written loaded current stored = (if current = loaded then stored else current)"

definition write_modified :: "lesson_doc \<Rightarrow> lesson_doc \<Rightarrow> lesson_doc \<Rightarrow> lesson_doc" where
  "write_modified old l stored =
     stored\<lparr>l_title := written (l_title old) (l_title l) (l_title stored),
            l_content := written (l_content old) (l_content l) (l_content stored),
            l_objectives := written (l_objectives old) (l_objectives l) (l_objectives stored),
            l_module := written (l_module old) (l_module l) (l_module stored),
            l_order := written (l_order old) (l_order l) (l_order stored),
            l_isEnriched := written (l_isEnriched old) (l_isEnriched l) (l_isEnriched stored),
            l_estimatedMinutes :=
              written (l_estimatedMinutes old) (l_estimatedMinutes l) (l_estimatedMinutes stored),
            l_difficulty := written (l_difficulty old) (l_difficulty l) (l_difficulty stored),
            l_tags := written (l_tags old) (l_tags l) (l_tags stored),
            l_readingTime := written (l_readingTime old) (l_readingTime l) (l_readingTime stored)\<rparr>"

definition lesson_save ::
    "store \<Rightarrow> lesson_doc option \<Rightarrow> lesson_doc \<Rightarrow> error + store \<times> lesson_doc" where
  "lesson_save s loaded l =
     (if lesson_errors l = [] then
        (case loaded of
           None \<Rightarrow>
             (let l' = pre_save True l
              in Inr (s\<lparr>lessons := upsert l_id l' (lessons s)\<rparr>, l'))
         | Some old \<Rightarrow>
             (let content_modified = (l_content l \<noteq> l_content old);
                  array_assigned = (content_modified \<or> l_objectives l \<noteq> l_objectives old \<or>
                                    l_tags l \<noteq> l_tags old);
                  l' = pre_save content_modified l
              in case find (\<lambda>x. l_id x = l_id l) (lessons s) of
                   None \<Rightarrow> Inl (if array_assigned then VersionError else DocumentNotFoundError)
                 | Some stored \<Rightarrow>
                     if \<not> array_assigned then
                       Inr (s\<lparr>lessons := upsert l_id (write_modified old l' stored) (lessons s)\<rparr>,
                            l')
                     else if l_version stored \<noteq> l_version l then Inl VersionError
                     else
                       Inr (s\<lparr>lessons :=
                                upsert l_id
                                  ((write_modified old l' stored)\<lparr>l_version := Suc (l_version l)\<rparr>)
                                  (lessons s)\<rparr>,
                            l'\<lparr>l_version := Suc (l_version l)\<rparr>)))
      else Inl (ValidationError (lesson_errors l)))"

text \<open>\<^verbatim>\<open>moduleSchema.methods.addLesson\<close> and \<^verbatim>\<open>courseSchema.methods.addModule\<close>.\<close>

definition addLesson :: "store \<Rightarrow> module_doc \<Rightarrow> objectId \<Rightarrow> error + store \<times> module_doc" where
  "addLesson s m lessonId =
     (if lessonId \<notin> set (m_lessons m) then
        (let m' = m\<lparr>m_lessons := m_lessons m @ [lessonId]\<rparr>
         in case module_save s m' of Inl e \<Rightarrow> Inl e | Inr s' \<Rightarrow> Inr (s', m'))
      else Inr (s, m))"

definition addModule :: "store \<Rightarrow> course_doc \<Rightarrow> objectId \<Rightarrow> error + store \<times> course_doc" where
  "addModule s c moduleId =
     (if moduleId \<notin> set (c_modules c) then
        (let c' = c\<lparr>c_modules := c_modules c @ [moduleId]\<rparr>
         in case course_save s c' of Inl e \<Rightarrow> Inl e | Inr s' \<Rightarrow> Inr (s', c'))
      else Inr (s, c))"

section \<open>The course controller: building the hierarchy\<close>

text \<open>A controller answers with a response, or lets an error escape to the error-handling
  middleware (\<open>Inl\<close>).  Either way the store it leaves behind is part of the result.\<close>

record 'a response =
  status :: nat
  success :: bool
  err :: "string option"
  payload :: "'a option"

definition placeholder_content :: "block list" where
  "placeholder_content =
     [\<lparr>b_type = Some ''paragraph'',
       b_text = Some ''Content will be generated when you first view this lesson.'',
       b_question = None, b_options = None, b_items = None\<rparr>]"

text \<open>The three constructor calls of \<^verbatim>\<open>generateCourse\<close>, with the schema's setters and
  defaults applied.\<close>

definition new_Course :: "objectId \<Rightarrow> string \<Rightarrow> courseData \<Rightarrow> course_doc" where
  "new_Course cid sub courseData =
     \<lparr>c_id = cid,
      c_title = set_trim (cd_title courseData),
      c_description = set_trim (cd_description courseData),
      c_creator = sub,
      c_modules = [],
      c_tags = map set_tag (arr_or (cd_tags courseData) []),
      c_isPublic = False,
      c_difficulty = str_or (cd_difficulty courseData) ''beginner'',
      c_estimatedHours = Some (num_or (cd_estimatedHours courseData) 10),
      c_enrollmentCount = 0\<rparr>"

definition new_Module :: "objectId \<Rightarrow> objectId \<Rightarrow> nat \<Rightarrow> moduleData \<Rightarrow> module_doc" where
  "new_Module mid cid i moduleData =
     \<lparr>m_id = mid,
      m_title = set_trim (md_title moduleData),
      m_description = Some (trim (str_or (md_description moduleData) [])),
      m_course = cid,
      m_lessons = [],
      m_order = num_or (md_order moduleData) (of_nat i),
      m_estimatedHours = None,
      m_objectives = map trim (arr_or (md_objectives moduleData) []),
      m_isCompleted = False\<rparr>"

definition new_Lesson :: "objectId \<Rightarrow> objectId \<Rightarrow> nat \<Rightarrow> lessonStub \<Rightarrow> lesson_doc" where
  "new_Lesson lid mid j lessonData =
     \<lparr>l_id = lid,
      l_title = set_trim (ls_title lessonData),
      l_content = placeholder_content,
      l_objectives = [],
      l_module = mid,
      l_order = num_or (ls_order lessonData) (of_nat j),
      l_isEnriched = False,
      l_estimatedMinutes = None,
      l_difficulty = ''beginner'',
      l_tags = [],
      l_readingTime = None,
      l_version = 0\<rparr>"

text \<open>The inner loop: one placeholder lesson per stub, saved and appended to the module.\<close>

fun create_lessons ::
    "store \<Rightarrow> module_doc \<Rightarrow> nat \<Rightarrow> lessonStub list \<Rightarrow> store \<times> (error + module_doc)" where
  "create_lessons s m j [] = (s, Inr m)"
| "create_lessons s m j (lessonData # rest) =
     (let (lid, s1) = fresh_id s;
          lesson = new_Lesson lid (m_id m) j lessonData
      in case lesson_save s1 None lesson of
           Inl e \<Rightarrow> (s1, Inl e)
         | Inr (s2, _) \<Rightarrow>
             (case addLesson s2 m lid of
                Inl e \<Rightarrow> (s2, Inl e)
              | Inr (s3, m') \<Rightarrow> create_lessons s3 m' (Suc j) rest))"

text \<open>The outer loop: one module per module outline, then its lessons, then the module is
  appended to the course.\<close>

fun create_modules ::
    "store \<Rightarrow> course_doc \<Rightarrow> nat \<Rightarrow> moduleData list \<Rightarrow> store \<times> (error + course_doc)" where
  "create_modules s c i [] = (s, Inr c)"
| "create_modules s c i (moduleData # rest) =
     (let (mid, s1) = fresh_id s;
          m = new_Module mid (c_id c) i moduleData
      in case module_save s1 m of
           Inl e \<Rightarrow> (s1, Inl e)
         | Inr s2 \<Rightarrow>
             (case md_lessons moduleData of
                None \<Rightarrow> (s2, Inl TypeError)
              | Some stubs \<Rightarrow>
                  (case create_lessons s2 m 0 stubs of
                     (s3, Inl e) \<Rightarrow> (s3, Inl e)
                   | (s3, Inr _) \<Rightarrow>
                       (case addModule s3 c mid of
                          Inl e \<Rightarrow> (s3, Inl e)
                        | Inr (s4, c') \<Rightarrow> create_modules s4 c' (Suc i) rest))))"

text \<open>The populated course of the response: the stored course, its modules in the order of
  its reference list, and of each lesson the selected paths.\<close>

record lesson_summary =
  sum_id :: objectId
  sum_title :: "string option"
  sum_order :: rat
  sum_estimatedMinutes :: "rat option"
  sum_isEnriched :: bool

definition summary :: "lesson_doc \<Rightarrow> lesson_summary" where
  "summary l =
     \<lparr>sum_id = l_id l, sum_title = l_title l, sum_order = l_order l,
      sum_estimatedMinutes = l_estimatedMinutes l, sum_isEnriched = l_isEnriched l\<rparr>"

type_synonym populated_course = "course_doc \<times> (module_doc \<times> lesson_summary list) list"

definition populate :: "store \<Rightarrow> objectId \<Rightarrow> populated_course option" where
  "populate s cid =
     (case find (\<lambda>c. c_id c = cid) (courses s) of
        None \<Rightarrow> None
      | Some c \<Rightarrow>
          Some (c, map (\<lambda>m. (m, map summary
                                  (List.map_filter (\<lambda>lid. find (\<lambda>l. l_id l = lid) (lessons s))
                                     (m_lessons m))))
                     (List.map_filter (\<lambda>mid. find (\<lambda>m. m_id m = mid) (modules s))
                        (c_modules c))))"

text \<open>\<^verbatim>\<open>generateCourse\<close> of the course controller.\<close>

definition generateCourse ::
    "(string \<Rightarrow> courseData option) \<Rightarrow> store \<Rightarrow> string option \<Rightarrow> string \<Rightarrow> error + envelope
       \<Rightarrow> store \<times> (error + populated_course response)" where
  "generateCourse JSON_parse s topic sub call =
     (if \<not> truthy_str topic \<or> length (trim (the topic)) = 0 then
        (s, Inr \<lparr>status = 400, success = False, err = Some ''Topic is required'', payload = None\<rparr>)
      else
        (case generateCourse_service JSON_parse call of
           Inl e \<Rightarrow> (s, Inl e)
         | Inr courseData \<Rightarrow>
             (let (cid, s1) = fresh_id s;
                  course = new_Course cid sub courseData
              in case course_save s1 course of
                   Inl e \<Rightarrow> (s1, Inl e)
                 | Inr s2 \<Rightarrow>
                     (case cd_modules courseData of
                        None \<Rightarrow> (s2, Inl TypeError)
                      | Some ms \<Rightarrow>
                          (case create_modules s2 course 0 ms of
                             (s3, Inl e) \<Rightarrow> (s3, Inl e)
                           | (s3, Inr _) \<Rightarrow>
                               (s3, Inr \<lparr>status = 201, success = True, err = None,
                                         payload = populate s3 cid\<rparr>))))))"

section \<open>The lesson controller\<close>

text \<open>
  \<^verbatim>\<open>getLesson\<close> suspends once between reading the lesson and writing it: at the
  \<^verbatim>\<open>await\<close> of the generation call.  The model follows that: \<open>getLesson_load\<close> is the
  handler up to the point where the call has been issued, \<open>getLesson_commit\<close> is the rest,
  run when the call has settled with outcome \<open>call\<close>.  The populated module of the response
  is left out of the payload.
\<close>

datatype load_result = Answer "error + lesson_doc response" | Generate lesson_doc

definition getLesson_load :: "store \<Rightarrow> objectId \<Rightarrow> string \<Rightarrow> load_result" where
  "getLesson_load s lid sub =
     (case find (\<lambda>l. l_id l = lid) (lessons s) of
        None \<Rightarrow>
          Answer (Inr \<lparr>status = 404, success = False, err = Some ''Lesson not found'',
                       payload = None\<rparr>)
      | Some lesson \<Rightarrow>
          (case find (\<lambda>m. m_id m = l_module lesson) (modules s) of
             None \<Rightarrow> Answer (Inl TypeError)
           | Some m \<Rightarrow>
               (case find (\<lambda>c. c_id c = m_course m) (courses s) of
                  None \<Rightarrow> Answer (Inl TypeError)
                | Some c \<Rightarrow>
                    if c_creator c \<noteq> sub then
                      Answer (Inr \<lparr>status = 403, success = False, err = Some ''Access denied'',
                                   payload = None\<rparr>)
                    else if \<not> l_isEnriched lesson then Generate lesson
                    else Answer (Inr \<lparr>status = 200, success = True, err = None,
                                      payload = Some lesson\<rparr>))))"

text \<open>The four assignments to the loaded lesson.  Content that failed the service's
  validation never reaches them, so the absent case of \<open>ld_content\<close> is not reachable.\<close>

definition assign_generated :: "lesson_doc \<Rightarrow> lessonData \<Rightarrow> lesson_doc" where
  "assign_generated lesson lessonData =
     lesson\<lparr>l_content := arr_or (ld_content lessonData) [],
            l_objectives := map trim (arr_or (ld_objectives lessonData) []),
            l_estimatedMinutes := Some (num_or (ld_estimatedMinutes lessonData) 15),
            l_isEnriched := True\<rparr>"

text \<open>The \<^verbatim>\<open>try\<close> block after the call and the response.  An error of the service or of
  the save is caught and only logged; the response carries the in-memory lesson, on which
  the save hook has run when the save got as far as the write.\<close>

definition getLesson_commit ::
    "(string \<Rightarrow> lessonData option) \<Rightarrow> store \<Rightarrow> lesson_doc \<Rightarrow> error + envelope
       \<Rightarrow> store \<times> (error + lesson_doc response)" where
  "getLesson_commit JSON_parse s lesson call =
     (case generateLesson_service JSON_parse call of
        Inl e \<Rightarrow> (s, Inr \<lparr>status = 200, success = True, err = None, payload = Some lesson\<rparr>)
      | Inr lessonData \<Rightarrow>
          (let lesson' = assign_generated lesson lessonData
           in case lesson_save s (Some lesson) lesson' of
                Inl e \<Rightarrow>
                  (s, Inr \<lparr>status = 200, success = True, err = None,
                           payload =
                             Some (case e of
                                     ValidationError _ \<Rightarrow> lesson'
                                   | _ \<Rightarrow> pre_save (l_content lesson' \<noteq> l_content lesson) lesson')\<rparr>)
              | Inr (s', saved) \<Rightarrow>
                  (s', Inr \<lparr>status = 200, success = True, err = None, payload = Some saved\<rparr>)))"

definition getLesson ::
    "(string \<Rightarrow> lessonData option) \<Rightarrow> store \<Rightarrow> objectId \<Rightarrow> string \<Rightarrow> error + envelope
       \<Rightarrow> store \<times> (error + lesson_doc response)" where
  "getLesson JSON_parse s lid sub call =
     (case getLesson_load s lid sub of
        Answer r \<Rightarrow> (s, r)
      | Generate lesson \<Rightarrow> getLesson_commit JSON_parse s lesson call)"

text \<open>\<^verbatim>\<open>updateLesson\<close>: the truthy fields of the body are written with
  \<^verbatim>\<open>Lesson.findByIdAndUpdate\<close> under \<^verbatim>\<open>runValidators\<close>, an update query: the validators
  of the written paths run, the document's save hook does not.\<close>

record update_body =
  ub_title :: "string option"
  ub_content :: "block list option"
  ub_objectives :: "string list option"
  ub_estimatedMinutes :: "rat option"
  ub_tags :: "string list option"

definition updated_paths :: "update_body \<Rightarrow> string list" where
  "updated_paths body =
     (if truthy_str (ub_title body) then [''title''] else []) @
     (if ub_content body \<noteq> None then [''content''] else []) @
     (if ub_objectives body \<noteq> None then [''objectives''] else []) @
     (if truthy_num (ub_estimatedMinutes body) then [''estimatedMinutes''] else []) @
     (if ub_tags body \<noteq> None then [''tags''] else [])"

definition apply_update :: "update_body \<Rightarrow> lesson_doc \<Rightarrow> lesson_doc" where
  "apply_update body l =
     l\<lparr>l_title := (if truthy_str (ub_title body) then set_trim (ub_title body) else l_title l),
       l_content := (case ub_content body of None \<Rightarrow> l_content l | Some c \<Rightarrow> c),
       l_objectives := (case ub_objectives body of None \<Rightarrow> l_objectives l | Some os \<Rightarrow> map trim os),
       l_estimatedMinutes := (if truthy_num (ub_estimatedMinutes body) then ub_estimatedMinutes body
                              else l_estimatedMinutes l),
       l_tags := (case ub_tags body of None \<Rightarrow> l_tags l | Some ts \<Rightarrow> map set_tag ts)\<rparr>"

definition findByIdAndUpdate :: "store \<Rightarrow> lesson_doc \<Rightarrow> update_body \<Rightarrow> error + store \<times> lesson_doc" where
  "findByIdAndUpdate s l body =
     (let l' = apply_update body l;
          errs = filter (\<lambda>p. p \<in> set (updated_paths body)) (lesson_errors l')
      in if errs = [] then Inr (s\<lparr>lessons := upsert l_id l' (lessons s)\<rparr>, l')
         else Inl (ValidationError errs))"

definition updateLesson ::
    "store \<Rightarrow> objectId \<Rightarrow> string \<Rightarrow> update_body \<Rightarrow> store \<times> (error + lesson_doc response)" where
  "updateLesson s lid sub body =
     (case find (\<lambda>l. l_id l = lid) (lessons s) of
        None \<Rightarrow>
          (s, Inr \<lparr>status = 404, success = False, err = Some ''Lesson not found'', payload = None\<rparr>)
      | Some lesson \<Rightarrow>
          (case find (\<lambda>m. m_id m = l_module lesson) (modules s) of
             None \<Rightarrow> (s, Inl TypeError)
           | Some m \<Rightarrow>
               (case find (\<lambda>c. c_id c = m_course m) (courses s) of
                  None \<Rightarrow> (s, Inl TypeError)
                | Some c \<Rightarrow>
                    if c_creator c \<noteq> sub then
                      (s, Inr \<lparr>status = 403, success = False, err = Some ''Access denied'',
                               payload = None\<rparr>)
                    else
                      (case findByIdAndUpdate s lesson body of
                         Inl e \<Rightarrow> (s, Inl e)
                       | Inr (s', updated) \<Rightarrow>
                           (s', Inr \<lparr>status = 200, success = True, err = None,
                                     payload = Some updated\<rparr>)))))"

section \<open>The suggestions route\<close>


section \<open>Concurrent reads of one lesson\<close>

text \<open>
  Requests run on one thread and interleave at their \<^verbatim>\<open>await\<close>s.  Each reader of a lesson
  is \<open>Waiting\<close> (request not yet handled), \<open>InFlight\<close> (its generation call issued and not
  settled, holding the lesson it loaded) or \<open>Finished\<close>.  \<open>Begin i\<close> runs reader \<open>i\<close> up to
  its call; \<open>Settle i call\<close> delivers the outcome of that call and runs it to the end.
  \<open>calls\<close> counts the generation calls issued.
\<close>

datatype reader = Waiting | InFlight lesson_doc | Finished "error + lesson_doc response"

datatype event = Begin nat | Settle nat "error + envelope"

record system =
  sys_store :: store
  readers :: "reader list"
  calls :: nat

definition exec ::
    "(string \<Rightarrow> lessonData option) \<Rightarrow> objectId \<Rightarrow> string \<Rightarrow> system \<Rightarrow> event \<Rightarrow> system" where
  "exec JSON_parse lid sub sys ev =
     (case ev of
        Begin i \<Rightarrow>
          (if i < length (readers sys) \<and> readers sys ! i = Waiting then
             (case getLesson_load (sys_store sys) lid sub of
                Answer r \<Rightarrow> sys\<lparr>readers := (readers sys)[i := Finished r]\<rparr>
              | Generate lesson \<Rightarrow>
                  sys\<lparr>readers := (readers sys)[i := InFlight lesson], calls := Suc (calls sys)\<rparr>)
           else sys)
      | Settle i call \<Rightarrow>
          (if i < length (readers sys) then
             (case readers sys ! i of
                InFlight lesson \<Rightarrow>
                  (case getLesson_commit JSON_parse (sys_store sys) lesson call of
                     (s', r) \<Rightarrow> sys\<lparr>sys_store := s', readers := (readers sys)[i := Finished r]\<rparr>)
              | _ \<Rightarrow> sys)
           else sys))"

definition run ::
    "(string \<Rightarrow> lessonData option) \<Rightarrow> objectId \<Rightarrow> string \<Rightarrow> system \<Rightarrow> event list \<Rightarrow> system" where
  "run JSON_parse lid sub sys evs = foldl (exec JSON_parse lid sub) sys evs"



section \<open>Predicates used in the statements\<close>

text \<open>An outline is storable when every document the controller builds from it passes the
  validators of its schema: the course, each module at its position, each lesson stub at its
  position.  The validators do not read identifiers, so \<open>0\<close> stands for them.\<close>

fun stubs_storable :: "nat \<Rightarrow> lessonStub list \<Rightarrow> bool" where
  "stubs_storable j [] = True"
| "stubs_storable j (lessonData # rest) =
     (lesson_errors (new_Lesson 0 0 j lessonData) = [] \<and> stubs_storable (Suc j) rest)"

fun modules_storable :: "nat \<Rightarrow> moduleData list \<Rightarrow> bool" where
  "modules_storable i [] = True"
| "modules_storable i (moduleData # rest) =
     (module_errors (new_Module 0 0 i moduleData) = [] \<and>
      (case md_lessons moduleData of None \<Rightarrow> False | Some stubs \<Rightarrow> stubs_storable 0 stubs) \<and>
      modules_storable (Suc i) rest)"

definition outline_storable :: "string \<Rightarrow> courseData \<Rightarrow> bool" where
  "outline_storable sub courseData \<longleftrightarrow>
     course_errors (new_Course 0 sub courseData) = [] \<and>
     (case cd_modules courseData of None \<Rightarrow> False | Some ms \<Rightarrow> modules_storable 0 ms)"

definition lesson_total :: "moduleData list \<Rightarrow> nat" where
  "lesson_total ms = sum_list (map (\<lambda>m. length (arr_or (md_lessons m) [])) ms)"

text \<open>The order values the controller assigns: \<^verbatim>\<open>moduleData.order || i\<close> and
  \<^verbatim>\<open>lessonData.order || j\<close>, position by position.\<close>

fun stub_orders :: "nat \<Rightarrow> lessonStub list \<Rightarrow> rat list" where
  "stub_orders j [] = []"
| "stub_orders j (lessonData # rest) =
     num_or (ls_order lessonData) (of_nat j) # stub_orders (Suc j) rest"

fun module_orders :: "nat \<Rightarrow> moduleData list \<Rightarrow> rat list" where
  "module_orders i [] = []"
| "module_orders i (moduleData # rest) =
     num_or (md_order moduleData) (of_nat i) # module_orders (Suc i) rest"

definition lesson_orders :: "moduleData list \<Rightarrow> rat list" where
  "lesson_orders ms = concat (map (\<lambda>m. stub_orders 0 (arr_or (md_lessons m) [])) ms)"

definition store_ok :: "store \<Rightarrow> bool" where
  "store_ok s \<longleftrightarrow>
     list_all (\<lambda>i. i < next_id s)
       (map c_id (courses s) @ map m_id (modules s) @ map l_id (lessons s))"

definition is_placeholder :: "lesson_doc \<Rightarrow> bool" where
  "is_placeholder l \<longleftrightarrow> \<not> l_isEnriched l \<and> l_content l = placeholder_content"

text \<open>A block whose \<^verbatim>\<open>type\<close> is one of the seven recognized kinds, and a string with no
  whitespace at either end.\<close>

definition recognized :: "block \<Rightarrow> bool" where
  "recognized b \<longleftrightarrow> (case b_type b of None \<Rightarrow> False | Some k \<Rightarrow> k \<in> set validTypes)"


text \<open>The error \<^verbatim>\<open>validateLessonStructure\<close> throws for a block it does not accept, at
  position \<open>index\<close>: the kind without the index when the block has a non-empty type, the
  index without a kind when it has none.\<close>

definition block_error :: "nat \<Rightarrow> block \<Rightarrow> error" where
  "block_error index b =
     (if truthy_str (b_type b) then Error (''Invalid content block type: '' @ the (b_type b))
      else Error (''Content block '' @ show_nat index @ '' missing type''))"



section \<open>Concrete inputs\<close>

text \<open>A store with no documents; a two-module outline in which the second module and its
  second lesson stub supply the order \<open>0\<close> and whose estimated hours are \<open>0\<close>; a one-module
  outline whose only lesson stub has no title; and a response envelope carrying a text.\<close>

definition empty_store :: store where
  "empty_store = \<lparr>courses = [], modules = [], lessons = [], next_id = 0\<rparr>"

definition stub :: "string option \<Rightarrow> rat option \<Rightarrow> lessonStub" where
  "stub t ord = \<lparr>ls_title = t, ls_order = ord\<rparr>"

definition module_outline :: "string \<Rightarrow> rat option \<Rightarrow> lessonStub list \<Rightarrow> moduleData" where
  "module_outline t ord stubs =
     \<lparr>md_title = Some t, md_description = None, md_order = ord, md_objectives = None,
      md_lessons = Some stubs\<rparr>"

definition outline_of :: "moduleData list \<Rightarrow> courseData" where
  "outline_of ms =
     \<lparr>cd_title = Some ''Linear Algebra'', cd_description = Some ''An introduction.'',
      cd_difficulty = Some ''beginner'', cd_estimatedHours = Some 0, cd_tags = Some [''Math''],
      cd_modules = Some ms\<rparr>"

definition sample_modules :: "moduleData list" where
  "sample_modules =
     [module_outline ''Vectors'' (Some 5) [stub (Some ''Basics'') None],
      module_outline ''Matrices'' (Some 0)
        [stub (Some ''Products'') (Some 1), stub (Some ''Inverses'') (Some 0)]]"

definition sample_outline :: courseData where
  "sample_outline = outline_of sample_modules"

definition untitled_stub_outline :: courseData where
  "untitled_stub_outline = outline_of [module_outline ''Vectors'' None [stub None None]]"

text \<open>A two-module outline whose last lesson stub has no title, and a one-module outline
  whose estimated hours exceed the limit of the Course schema.\<close>

definition partial_outline :: courseData where
  "partial_outline =
     outline_of [module_outline ''Vectors'' None [stub (Some ''Basics'') None],
                 module_outline ''Matrices'' None [stub (Some ''Products'') None, stub None None]]"

definition over_limit_outline :: courseData where
  "over_limit_outline =
     (outline_of [module_outline ''Vectors'' None [stub (Some ''Basics'') None]])
       \<lparr>cd_estimatedHours := Some 1001\<rparr>"

definition text_response :: "string \<Rightarrow> error + envelope" where
  "text_response t = Inr \<lparr>e_text = TextStr t, e_candidates = []\<rparr>"

text \<open>A store holding one course of user \<open>auth0|u1\<close> with one module and one placeholder
  lesson, as \<open>generateCourse\<close> leaves them.\<close>

definition sample_lesson :: lesson_doc where
  "sample_lesson =
     \<lparr>l_id = 2, l_title = Some ''Basics'', l_content = placeholder_content, l_objectives = [],
      l_module = 1, l_order = 0, l_isEnriched = False, l_estimatedMinutes = None,
      l_difficulty = ''beginner'', l_tags = [], l_readingTime = Some 1, l_version = 0\<rparr>"

definition sample_store :: store where
  "sample_store =
     \<lparr>courses =
        [\<lparr>c_id = 0, c_title = Some ''Linear Algebra'', c_description = Some ''An introduction.'',
          c_creator = ''auth0|u1'', c_modules = [1], c_tags = [''math''], c_isPublic = False,
          c_difficulty = ''beginner'', c_estimatedHours = Some 10, c_enrollmentCount = 0\<rparr>],
      modules =
        [\<lparr>m_id = 1, m_title = Some ''Vectors'', m_description = Some [], m_course = 0,
          m_lessons = [2], m_order = 0, m_estimatedHours = None, m_objectives = [],
          m_isCompleted = False\<rparr>],
      lessons = [sample_lesson],
      next_id = 3\<rparr>"

definition paragraph_block :: "string \<Rightarrow> block" where
  "paragraph_block t =
     \<lparr>b_type = Some ''paragraph'', b_text = Some t, b_question = None, b_options = None,
      b_items = None\<rparr>"

definition block_of_type :: "string \<Rightarrow> block" where
  "block_of_type k =
     \<lparr>b_type = Some k, b_text = None, b_question = None, b_options = None, b_items = None\<rparr>"

definition lesson_body :: "block list \<Rightarrow> lessonData" where
  "lesson_body bs =
     \<lparr>ld_title = Some ''Basics'', ld_objectives = Some [''Add vectors''],
      ld_estimatedMinutes = Some 15, ld_content = Some bs\<rparr>"

text \<open>A paragraph of 201 words and the update body that replaces a lesson's content; two
  waiting readers of the sample lesson and a parser that knows two lesson bodies.\<close>

definition long_content :: "block list" where
  "long_content = [paragraph_block (concat (replicate 200 ''word '') @ ''word'')]"

definition content_update :: "block list \<Rightarrow> update_body" where
  "content_update c =
     \<lparr>ub_title = None, ub_content = Some c, ub_objectives = None, ub_estimatedMinutes = None,
      ub_tags = None\<rparr>"




section \<open>Facts about the store\<close>

lemma map_key_upsert:
  "map key (upsert key d ds) =
     (if key d \<in> set (map key ds) then map key ds else map key ds @ [key d])"
proof -
  have "map key (map (\<lambda>x. if key x = key d then d else x) ds) = map key ds"
    by (induction ds) auto
  then show ?thesis by (simp add: upsert_def)
qed

lemma upsert_fresh: "key d \<notin> set (map key ds) \<Longrightarrow> upsert key d ds = ds @ [d]"
  by (simp add: upsert_def)

lemma find_append_case:
  "find P (xs @ ys) = (case find P xs of None \<Rightarrow> find P ys | Some x \<Rightarrow> Some x)"
  by (induction xs) auto

lemma find_upsert:
  "find (\<lambda>x. key x = k) (upsert key d ds) =
     (if key d = k then Some d else find (\<lambda>x. key x = k) ds)"
proof -
  have a: "key d = k \<Longrightarrow> key d \<in> set (map key ds) \<Longrightarrow>
        find (\<lambda>x. key x = k) (map (\<lambda>x. if key x = key d then d else x) ds) = Some d"
    by (induction ds) auto
  have b: "key d \<noteq> k \<Longrightarrow>
        find (\<lambda>x. key x = k) (map (\<lambda>x. if key x = key d then d else x) ds) =
        find (\<lambda>x. key x = k) ds"
    by (induction ds) auto
  have c: "key d \<notin> set (map key ds) \<Longrightarrow> key d = k \<Longrightarrow> find (\<lambda>x. key x = k) ds = None"
    by (induction ds) auto
  show ?thesis
    using a b c by (auto simp: upsert_def find_append_case split: option.splits)
qed

lemma lesson_errors_new_Lesson:
  "lesson_errors (new_Lesson lid mid j ld) = lesson_errors (new_Lesson 0 0 j ld)"
  by (simp add: lesson_errors_def new_Lesson_def)

lemma module_errors_new_Module:
  "module_errors (new_Module mid cid i md) = module_errors (new_Module 0 0 i md)"
  by (simp add: module_errors_def new_Module_def)

lemma course_errors_new_Course:
  "course_errors (new_Course cid sub cd) = course_errors (new_Course 0 sub cd)"
  by (simp add: course_errors_def new_Course_def)

lemma module_errors_lessons [simp]: "module_errors (m\<lparr>m_lessons := x\<rparr>) = module_errors m"
  by (simp add: module_errors_def)

lemma course_errors_modules [simp]: "course_errors (c\<lparr>c_modules := x\<rparr>) = course_errors c"
  by (simp add: course_errors_def)

lemma ids_below_mono:
  "list_all (\<lambda>i. i < n) xs \<Longrightarrow> n \<le> n' \<Longrightarrow> list_all (\<lambda>i. i < (n'::nat)) xs"
  by (induction xs) auto

lemma map_order_upsert:
  assumes "list_all (\<lambda>x. m_id x = m_id m \<longrightarrow> m_order x = m_order m) ds"
    and "m_id m' = m_id m" and "m_order m' = m_order m" and "m_id m \<in> set (map m_id ds)"
  shows "map m_order (upsert m_id m' ds) = map m_order ds \<and>
         list_all (\<lambda>x. m_id x = m_id m \<longrightarrow> m_order x = m_order m) (upsert m_id m' ds)"
proof -
  have "map m_order (map (\<lambda>x. if m_id x = m_id m then m' else x) ds) = map m_order ds \<and>
        list_all (\<lambda>x. m_id x = m_id m \<longrightarrow> m_order x = m_order m)
          (map (\<lambda>x. if m_id x = m_id m then m' else x) ds)"
    using assms(1,3) by (induction ds) auto
  then show ?thesis
    using assms(2,4) by (simp add: upsert_def)
qed

lemma addLesson_ok:
  assumes "module_errors m = []" and "m_id m \<in> set (map m_id (modules s))"
    and "list_all (\<lambda>x. m_id x = m_id m \<longrightarrow> m_order x = m_order m) (modules s)"
  shows "\<exists>s' m'. addLesson s m lid = Inr (s', m') \<and> courses s' = courses s \<and>
           lessons s' = lessons s \<and> next_id s' = next_id s \<and>
           map m_id (modules s') = map m_id (modules s) \<and> m_id m' = m_id m \<and>
           module_errors m' = [] \<and> m_order m' = m_order m \<and>
           map m_order (modules s') = map m_order (modules s) \<and>
           list_all (\<lambda>x. m_id x = m_id m \<longrightarrow> m_order x = m_order m) (modules s')"
proof (cases "lid \<in> set (m_lessons m)")
  case True
  then show ?thesis using assms by (simp add: addLesson_def)
next
  case False
  let ?m' = "m\<lparr>m_lessons := m_lessons m @ [lid]\<rparr>"
  have "m_id ?m' = m_id m" "m_order ?m' = m_order m" by simp_all
  from map_order_upsert [OF assms(3) this assms(2)] False assms(1,2)
  show ?thesis
    by (simp add: addLesson_def module_save_def Let_def map_key_upsert)
qed

lemma addModule_ok:
  assumes "course_errors c = []" and "c_id c \<in> set (map c_id (courses s))"
  shows "\<exists>s' c'. addModule s c mid = Inr (s', c') \<and> modules s' = modules s \<and>
           lessons s' = lessons s \<and> next_id s' = next_id s \<and>
           map c_id (courses s') = map c_id (courses s) \<and> c_id c' = c_id c \<and>
           course_errors c' = []"
  using assms by (simp add: addModule_def course_save_def Let_def map_key_upsert)

lemma create_lessons_ok:
  assumes "stubs_storable j stubs" and "module_errors m = []"
    and "m_id m \<in> set (map m_id (modules s))"
    and "list_all (\<lambda>i. i < next_id s) (map l_id (lessons s))"
    and "list_all (\<lambda>x. m_id x = m_id m \<longrightarrow> m_order x = m_order m) (modules s)"
  shows "\<exists>s' m' new. create_lessons s m j stubs = (s', Inr m') \<and> courses s' = courses s \<and>
           map m_id (modules s') = map m_id (modules s) \<and>
           map m_order (modules s') = map m_order (modules s) \<and>
           next_id s' = next_id s + length stubs \<and>
           lessons s' = lessons s @ new \<and> length new = length stubs \<and>
           list_all is_placeholder new \<and> list_all (\<lambda>i. i < next_id s') (map l_id new) \<and>
           map l_order new = stub_orders j stubs"
  using assms
proof (induction stubs arbitrary: s m j)
  case Nil
  then show ?case by simp
next
  case (Cons ld rest)
  let ?lid = "next_id s"
  let ?s1 = "s\<lparr>next_id := Suc ?lid\<rparr>"
  let ?l = "new_Lesson ?lid (m_id m) j ld"
  let ?l' = "pre_save True ?l"
  let ?s2 = "?s1\<lparr>lessons := lessons s @ [?l']\<rparr>"
  have errs: "lesson_errors ?l = []"
    using Cons.prems(1) lesson_errors_new_Lesson [of ?lid "m_id m" j ld] by simp
  have id': "l_id ?l' = ?lid" and ord: "l_order ?l' = num_or (ls_order ld) (of_nat j)"
    by (simp_all add: pre_save_def new_Lesson_def)
  have fresh: "l_id ?l' \<notin> set (map l_id (lessons s))"
    using Cons.prems(4) id' by (auto simp: list_all_iff)
  have save: "lesson_save ?s1 None ?l = Inr (?s2, ?l')"
    using errs fresh by (simp add: lesson_save_def Let_def upsert_fresh)
  have mem2: "m_id m \<in> set (map m_id (modules ?s2))"
    using Cons.prems(3) by simp
  have inv2: "list_all (\<lambda>x. m_id x = m_id m \<longrightarrow> m_order x = m_order m) (modules ?s2)"
    using Cons.prems(5) by simp
  from addLesson_ok [OF Cons.prems(2) mem2 inv2, of ?lid]
  obtain s3 m' where add: "addLesson ?s2 m ?lid = Inr (s3, m')"
    and s3: "courses s3 = courses s" "lessons s3 = lessons s @ [?l']"
      "next_id s3 = Suc ?lid" "map m_id (modules s3) = map m_id (modules s)"
      "m_id m' = m_id m" "module_errors m' = []" "m_order m' = m_order m"
      "map m_order (modules s3) = map m_order (modules s)"
      "list_all (\<lambda>x. m_id x = m_id m \<longrightarrow> m_order x = m_order m) (modules s3)"
    by auto
  have inv: "list_all (\<lambda>i. i < next_id s3) (map l_id (lessons s3))"
    using ids_below_mono [OF Cons.prems(4), of "Suc ?lid"] s3(2,3) id' by simp
  have mem: "m_id m' \<in> set (map m_id (modules s3))"
    using Cons.prems(3) s3(4,5) by simp
  have inv3: "list_all (\<lambda>x. m_id x = m_id m' \<longrightarrow> m_order x = m_order m') (modules s3)"
    using s3(5,7,9) by simp
  have st: "stubs_storable (Suc j) rest"
    using Cons.prems(1) by simp
  from Cons.IH [OF st s3(6) mem inv inv3]
  obtain s' m'' new where rec: "create_lessons s3 m' (Suc j) rest = (s', Inr m'')"
    and r: "courses s' = courses s3" "map m_id (modules s') = map m_id (modules s3)"
      "map m_order (modules s') = map m_order (modules s3)"
      "next_id s' = next_id s3 + length rest" "lessons s' = lessons s3 @ new"
      "length new = length rest" "list_all is_placeholder new"
      "list_all (\<lambda>i. i < next_id s') (map l_id new)"
      "map l_order new = stub_orders (Suc j) rest"
    by auto
  have step: "create_lessons s m j (ld # rest) = (s', Inr m'')"
    using save add rec by (simp add: fresh_id_def)
  have ph: "is_placeholder ?l'"
    by (simp add: is_placeholder_def pre_save_def new_Lesson_def)
  show ?case
    apply (rule exI [of _ s'], rule exI [of _ m''], rule exI [of _ "?l' # new"])
    using step r s3(1-4,8) ph id' ord by simp
qed

lemma create_modules_ok:
  assumes "modules_storable i ms" and "course_errors c = []"
    and "c_id c \<in> set (map c_id (courses s))"
    and "list_all (\<lambda>i. i < next_id s) (map m_id (modules s) @ map l_id (lessons s))"
  shows "\<exists>s' c' newm newl. create_modules s c i ms = (s', Inr c') \<and>
           map c_id (courses s') = map c_id (courses s) \<and>
           map m_id (modules s') = map m_id (modules s) @ newm \<and> length newm = length ms \<and>
           map m_order (modules s') = map m_order (modules s) @ module_orders i ms \<and>
           lessons s' = lessons s @ newl \<and> length newl = lesson_total ms \<and>
           list_all is_placeholder newl \<and> map l_order newl = lesson_orders ms \<and>
           next_id s \<le> next_id s' \<and>
           list_all (\<lambda>i. i < next_id s') (newm @ map l_id newl)"
  using assms
proof (induction ms arbitrary: s c i)
  case Nil
  then show ?case by (simp add: lesson_total_def lesson_orders_def)
next
  case (Cons md rest)
  let ?mid = "next_id s"
  let ?s1 = "s\<lparr>next_id := Suc ?mid\<rparr>"
  let ?m = "new_Module ?mid (c_id c) i md"
  let ?s2 = "?s1\<lparr>modules := modules s @ [?m]\<rparr>"
  from Cons.prems(1) obtain stubs where stubs: "md_lessons md = Some stubs"
    and st: "stubs_storable 0 stubs" and rest: "modules_storable (Suc i) rest"
    and me: "module_errors (new_Module 0 0 i md) = []"
    by (auto split: option.splits)
  have errs: "module_errors ?m = []"
    using me module_errors_new_Module [of ?mid "c_id c" i md] by simp
  have mid: "m_id ?m = ?mid" and mord: "m_order ?m = num_or (md_order md) (of_nat i)"
    by (simp_all add: new_Module_def)
  have old: "list_all (\<lambda>x. m_id x \<noteq> ?mid) (modules s)"
    using Cons.prems(4) by (force simp: list_all_iff)
  have fresh: "m_id ?m \<notin> set (map m_id (modules s))"
    using old mid by (auto simp: list_all_iff)
  have save: "module_save ?s1 ?m = Inr ?s2"
    using errs fresh by (simp add: module_save_def upsert_fresh)
  have mem: "m_id ?m \<in> set (map m_id (modules ?s2))" by simp
  have inv2: "list_all (\<lambda>i. i < next_id ?s2) (map l_id (lessons ?s2))"
    using ids_below_mono [OF Cons.prems(4), of "Suc ?mid"] by simp
  have invo: "list_all (\<lambda>x. m_id x = m_id ?m \<longrightarrow> m_order x = m_order ?m) (modules ?s2)"
    using old mid by (auto simp: list_all_iff)
  from create_lessons_ok [OF st errs mem inv2 invo]
  obtain s3 m' newl1 where cl: "create_lessons ?s2 ?m 0 stubs = (s3, Inr m')"
    and s3: "courses s3 = courses s" "map m_id (modules s3) = map m_id (modules s) @ [?mid]"
      "next_id s3 = Suc ?mid + length stubs" "lessons s3 = lessons s @ newl1"
      "length newl1 = length stubs" "list_all is_placeholder newl1"
      "list_all (\<lambda>i. i < next_id s3) (map l_id newl1)"
      "map m_order (modules s3) = map m_order (modules s) @ [num_or (md_order md) (of_nat i)]"
      "map l_order newl1 = stub_orders 0 stubs"
    using mid mord by auto
  have cmem: "c_id c \<in> set (map c_id (courses s3))"
    using Cons.prems(3) s3(1) by simp
  from addModule_ok [OF Cons.prems(2) cmem, of ?mid]
  obtain s4 c' where am: "addModule s3 c ?mid = Inr (s4, c')"
    and s4: "modules s4 = modules s3" "lessons s4 = lessons s3" "next_id s4 = next_id s3"
      "map c_id (courses s4) = map c_id (courses s3)" "c_id c' = c_id c" "course_errors c' = []"
    by auto
  have cmem4: "c_id c' \<in> set (map c_id (courses s4))"
    using cmem s4(4,5) by simp
  have le4: "next_id s \<le> next_id s4"
    using s3(3) s4(3) by simp
  have inv4: "list_all (\<lambda>i. i < next_id s4) (map m_id (modules s4) @ map l_id (lessons s4))"
    using ids_below_mono [OF Cons.prems(4) le4] s3(2,3,4,7) s4(1,2,3) by simp
  from Cons.IH [OF rest s4(6) cmem4 inv4]
  obtain s' c'' newm newl where rec: "create_modules s4 c' (Suc i) rest = (s', Inr c'')"
    and r: "map c_id (courses s') = map c_id (courses s4)"
      "map m_id (modules s') = map m_id (modules s4) @ newm" "length newm = length rest"
      "lessons s' = lessons s4 @ newl" "length newl = lesson_total rest"
      "list_all is_placeholder newl" "next_id s4 \<le> next_id s'"
      "list_all (\<lambda>i. i < next_id s') (newm @ map l_id newl)"
      "map m_order (modules s') = map m_order (modules s4) @ module_orders (Suc i) rest"
      "map l_order newl = lesson_orders rest"
    by auto
  have step: "create_modules s c i (md # rest) = (s', Inr c'')"
    using save stubs cl am rec by (simp add: fresh_id_def)
  have tot: "lesson_total (md # rest) = length stubs + lesson_total rest"
    "lesson_orders (md # rest) = stub_orders 0 stubs @ lesson_orders rest"
    using stubs by (simp_all add: lesson_total_def lesson_orders_def arr_or_def)
  have bound: "list_all (\<lambda>i. i < next_id s') ((?mid # newm) @ map l_id (newl1 @ newl))"
    using r(7,8) s3(3) s4(3) ids_below_mono [OF s3(7), of "next_id s'"] by simp
  show ?case
    apply (rule exI [of _ s'], rule exI [of _ c''], rule exI [of _ "?mid # newm"],
           rule exI [of _ "newl1 @ newl"])
    using step r(1-6,9,10) s3(1,2,4,5,6,8,9) s4(1,2,3,4) tot bound r(7) by simp
qed

text \<open>What \<open>generateCourse\<close> does with a validated, storable outline.\<close>

lemma generateCourse_ok:
  assumes "store_ok s" and "truthy_str topic" and "trim (the topic) \<noteq> []"
    and "generateCourse_service JSON_parse call = Inr courseData"
    and "cd_modules courseData = Some ms"
    and "outline_storable sub courseData"
  shows "\<exists>s' newl. generateCourse JSON_parse s topic sub call =
             (s', Inr \<lparr>status = 201, success = True, err = None,
                       payload = populate s' (next_id s)\<rparr>) \<and>
           length (courses s') = length (courses s) + 1 \<and>
           length (modules s') = length (modules s) + length ms \<and>
           map m_order (modules s') = map m_order (modules s) @ module_orders 0 ms \<and>
           lessons s' = lessons s @ newl \<and> length newl = lesson_total ms \<and>
           list_all is_placeholder newl \<and> map l_order newl = lesson_orders ms"
proof -
  let ?cid = "next_id s"
  let ?s1 = "s\<lparr>next_id := Suc ?cid\<rparr>"
  let ?c = "new_Course ?cid sub courseData"
  let ?s2 = "?s1\<lparr>courses := courses s @ [?c]\<rparr>"
  have errs: "course_errors ?c = []"
    using assms(6) course_errors_new_Course [of ?cid sub courseData]
    by (simp add: outline_storable_def)
  have ms: "modules_storable 0 ms"
    using assms(5,6) by (simp add: outline_storable_def)
  have cid: "c_id ?c = ?cid" by (simp add: new_Course_def)
  have fresh: "c_id ?c \<notin> set (map c_id (courses s))"
    using assms(1) cid by (auto simp: store_ok_def list_all_iff)
  have save: "course_save ?s1 ?c = Inr ?s2"
    using errs fresh by (simp add: course_save_def upsert_fresh)
  have mem: "c_id ?c \<in> set (map c_id (courses ?s2))" by simp
  have inv: "list_all (\<lambda>i. i < next_id ?s2) (map m_id (modules ?s2) @ map l_id (lessons ?s2))"
    using ids_below_mono [of "next_id s" _ "Suc ?cid"] assms(1) by (simp add: store_ok_def)
  from create_modules_ok [OF ms errs mem inv]
  obtain s' c' newm newl where cm: "create_modules ?s2 ?c 0 ms = (s', Inr c')"
    and r: "map c_id (courses s') = map c_id (courses ?s2)"
      "map m_id (modules s') = map m_id (modules ?s2) @ newm" "length newm = length ms"
      "lessons s' = lessons ?s2 @ newl" "length newl = lesson_total ms"
      "list_all is_placeholder newl"
      "map m_order (modules s') = map m_order (modules ?s2) @ module_orders 0 ms"
      "map l_order newl = lesson_orders ms"
    by blast
  have lc: "length (courses s') = length (courses s) + 1"
    using arg_cong [OF r(1), of length] by simp
  have lm: "length (modules s') = length (modules s) + length ms"
    using arg_cong [OF r(2), of length] r(3) by simp
  have "generateCourse JSON_parse s topic sub call =
          (s', Inr \<lparr>status = 201, success = True, err = None, payload = populate s' ?cid\<rparr>)"
    using assms(2,3,4,5) save cm by (simp add: generateCourse_def fresh_id_def)
  then show ?thesis
    using lc lm r(4,5,6,7,8) by simp
qed

lemma image_upsert: "key ` set (upsert key d ds) = insert (key d) (key ` set ds)"
  using arg_cong [OF map_key_upsert [of key d ds], of set] by auto

lemma create_lessons_courses:
  "create_lessons s m j stubs = (s', r) \<Longrightarrow> courses s' = courses s"
proof (induction stubs arbitrary: s m j)
  case Nil
  then show ?case by simp
next
  case (Cons ld rest)
  then show ?case
    by (auto simp: fresh_id_def lesson_save_def addLesson_def module_save_def Let_def
             split: if_splits sum.splits prod.splits option.splits)
qed

lemma create_modules_course:
  assumes "create_modules s c i ms = (s', r)"
    and "find (\<lambda>x. c_id x = c_id c) (courses s) = Some c0"
    and "c_estimatedHours c0 = h" and "c_estimatedHours c = h"
  shows "\<exists>c1. find (\<lambda>x. c_id x = c_id c) (courses s') = Some c1 \<and> c_estimatedHours c1 = h"
  using assms
proof (induction ms arbitrary: s c i c0)
  case Nil
  then show ?case by simp
next
  case (Cons md rest)
  let ?m = "new_Module (next_id s) (c_id c) i md"
  show ?case
  proof (cases "module_save (snd (fresh_id s)) ?m")
    case (Inl e)
    with Cons.prems show ?thesis by (auto simp: fresh_id_def)
  next
    case (Inr s2)
    have s2: "courses s2 = courses s"
      using Inr by (auto simp: fresh_id_def module_save_def split: if_splits)
    show ?thesis
    proof (cases "md_lessons md")
      case None
      with Cons.prems Inr s2 show ?thesis by (auto simp: fresh_id_def)
    next
      case (Some stubs)
      obtain s3 r3 where cl: "create_lessons s2 ?m 0 stubs = (s3, r3)"
        by (cases "create_lessons s2 ?m 0 stubs")
      have s3: "courses s3 = courses s"
        using create_lessons_courses [OF cl] s2 by simp
      show ?thesis
      proof (cases r3)
        case (Inl e)
        with Cons.prems \<open>module_save _ _ = Inr s2\<close> Some cl s3 show ?thesis
          by (auto simp: fresh_id_def)
      next
        case (Inr m')
        show ?thesis
        proof (cases "addModule s3 c (next_id s)")
          case (Inl e)
          with Cons.prems \<open>module_save _ _ = Inr s2\<close> Some cl \<open>r3 = Inr m'\<close> s3 show ?thesis
            by (auto simp: fresh_id_def)
        next
          case (Inr q)
          obtain s4 c' where q: "q = (s4, c')" by (cases q)
          have c': "c_id c' = c_id c" "c_estimatedHours c' = h"
            using Inr q Cons.prems(4)
            by (auto simp: addModule_def course_save_def Let_def split: if_splits sum.splits)
          have "\<exists>c4. find (\<lambda>x. c_id x = c_id c) (courses s4) = Some c4 \<and> c_estimatedHours c4 = h"
            using Inr q Cons.prems(2,3,4) s3
            by (auto simp: addModule_def course_save_def Let_def find_upsert
                     split: if_splits sum.splits)
          then obtain c4 where c4: "find (\<lambda>x. c_id x = c_id c') (courses s4) = Some c4"
            "c_estimatedHours c4 = h"
            using c'(1) by auto
          have "create_modules s4 c' (Suc i) rest = (s', r)"
            using Cons.prems(1) \<open>module_save _ _ = Inr s2\<close> Some cl \<open>r3 = Inr m'\<close> Inr q
            by (simp add: fresh_id_def)
          from Cons.IH [OF this c4(1) c4(2) c'(2)] c'(1) show ?thesis by simp
        qed
      qed
    qed
  qed
qed

section \<open>Facts about the concrete inputs\<close>

lemma empty_store_ok: "store_ok empty_store"
  by (simp add: store_ok_def empty_store_def)

lemma sample_topic: "truthy_str (Some ''Linear Algebra'') \<and> trim (the (Some ''Linear Algebra'')) \<noteq> []"
  by code_simp

lemma sample_service:
  "generateCourse_service (map_of [(''{}'', sample_outline)]) (text_response ''{}'') =
     Inr sample_outline"
  by code_simp

lemma sample_modules_eq: "cd_modules sample_outline = Some sample_modules"
  by (simp add: sample_outline_def outline_of_def)

lemma sample_storable: "outline_storable ''auth0|u1'' sample_outline"
  by code_simp

lemma sample_run:
  "\<exists>s'.
     generateCourse (map_of [(''{}'', sample_outline)]) empty_store (Some ''Linear Algebra'')
       ''auth0|u1'' (text_response ''{}'') =
       (s', Inr \<lparr>status = 201, success = True, err = None, payload = populate s' 0\<rparr>) \<and>
     map m_order (modules s') = [5, 1] \<and> map l_order (lessons s') = [0, 1, 1]"
proof -
  have mo: "module_orders 0 sample_modules = [5, 1]"
    by code_simp
  have lo: "lesson_orders sample_modules = [0, 1, 1]"
    by code_simp
  have e: "next_id empty_store = 0" "modules empty_store = []" "lessons empty_store = []"
    by (simp_all add: empty_store_def)
  from generateCourse_ok [OF empty_store_ok conjunct1 [OF sample_topic]
      conjunct2 [OF sample_topic] sample_service sample_modules_eq sample_storable]
  obtain s' newl where
    "generateCourse (map_of [(''{}'', sample_outline)]) empty_store (Some ''Linear Algebra'')
       ''auth0|u1'' (text_response ''{}'') =
       (s', Inr \<lparr>status = 201, success = True, err = None, payload = populate s' 0\<rparr>)"
    "map m_order (modules s') = [5, 1]" "map l_order (lessons s') = [0, 1, 1]"
    unfolding e mo lo by auto
  then show ?thesis
    by (intro exI [of _ s']) simp
qed

section \<open>The hierarchy builder creates one module per outline module and one placeholder
  lesson per stub\<close>

text \<open>
  C4, as the claim states it, fails: the outline below passes the service's validation and
  has one module with one lesson stub, its estimated hours of 1001 exceed the maximum of the
  Course schema, the save of the course is rejected, and no module and no lesson is
  persisted.
\<close>

theorem schema_limit_counterexample:
  "generateCourse_service (map_of [(''{}'', over_limit_outline)]) (text_response ''{}'') =
     Inr over_limit_outline \<and>
   map_option length (cd_modules over_limit_outline) = Some 1 \<and>
   snd (generateCourse (map_of [(''{}'', over_limit_outline)]) empty_store
      (Some ''Linear Algebra'') ''auth0|u1'' (text_response ''{}'')) =
     Inl (ValidationError [''estimatedHours'']) \<and>
   modules (fst (generateCourse (map_of [(''{}'', over_limit_outline)]) empty_store
      (Some ''Linear Algebra'') ''auth0|u1'' (text_response ''{}''))) = [] \<and>
   lessons (fst (generateCourse (map_of [(''{}'', over_limit_outline)]) empty_store
      (Some ''Linear Algebra'') ''auth0|u1'' (text_response ''{}''))) = []"
  by code_simp

text \<open>
  C4.  For an outline that the service has validated and that is storable, with \<open>M\<close> module
  outlines and \<open>L\<^sub>i\<close> lesson stubs in the \<open>i\<close>-th, \<open>generateCourse\<close> answers 201 and leaves a
  store with one more course, exactly \<open>M\<close> more modules and exactly \<open>\<Sum> L\<^sub>i\<close> more lessons;
  every lesson it added has \<open>isEnriched = false\<close> and the single placeholder paragraph as
  content.
\<close>

theorem hierarchy_counts:
  assumes "store_ok s" and "truthy_str topic" and "trim (the topic) \<noteq> []"
    and "generateCourse_service JSON_parse call = Inr courseData"
    and "cd_modules courseData = Some ms"
    and "outline_storable sub courseData"
  shows "\<exists>s' resp newl. generateCourse JSON_parse s topic sub call = (s', Inr resp) \<and>
           status resp = 201 \<and>
           length (courses s') = length (courses s) + 1 \<and>
           length (modules s') = length (modules s) + length ms \<and>
           lessons s' = lessons s @ newl \<and> length newl = lesson_total ms \<and>
           list_all is_placeholder newl"
proof -
  from generateCourse_ok [OF assms]
  obtain s' newl where
    "generateCourse JSON_parse s topic sub call =
       (s', Inr \<lparr>status = 201, success = True, err = None, payload = populate s' (next_id s)\<rparr>)"
    "length (courses s') = length (courses s) + 1"
    "length (modules s') = length (modules s) + length ms"
    "lessons s' = lessons s @ newl" "length newl = lesson_total ms"
    "list_all is_placeholder newl"
    by blast
  then show ?thesis
    by (intro exI [of _ s'] exI [of _ newl]
          exI [of _ "\<lparr>status = 201, success = True, err = None, payload = populate s' (next_id s)\<rparr>"])
       simp
qed

theorem hierarchy_counts_witness:
  "store_ok empty_store \<and> truthy_str (Some ''Linear Algebra'') \<and>
   trim (the (Some ''Linear Algebra'')) \<noteq> [] \<and>
   generateCourse_service (map_of [(''{}'', sample_outline)]) (text_response ''{}'') =
     Inr sample_outline \<and>
   cd_modules sample_outline = Some sample_modules \<and>
   outline_storable ''auth0|u1'' sample_outline \<and>
   (\<exists>s' resp newl.
      generateCourse (map_of [(''{}'', sample_outline)]) empty_store (Some ''Linear Algebra'')
        ''auth0|u1'' (text_response ''{}'') = (s', Inr resp) \<and>
      status resp = 201 \<and>
      length (courses s') = length (courses empty_store) + 1 \<and>
      length (modules s') = length (modules empty_store) + length sample_modules \<and>
      lessons s' = lessons empty_store @ newl \<and> length newl = lesson_total sample_modules \<and>
      list_all is_placeholder newl)"
proof -
  have h1: "store_ok empty_store"
    by (simp add: store_ok_def empty_store_def)
  have h2: "truthy_str (Some ''Linear Algebra'')"
    by (simp add: truthy_str_def)
  have h3: "trim (the (Some ''Linear Algebra'')) \<noteq> []"
    by code_simp
  have h4: "generateCourse_service (map_of [(''{}'', sample_outline)]) (text_response ''{}'') =
              Inr sample_outline"
    by code_simp
  have h5: "cd_modules sample_outline = Some sample_modules"
    by (simp add: sample_outline_def outline_of_def)
  have h6: "outline_storable ''auth0|u1'' sample_outline"
    by code_simp
  show ?thesis
    using hierarchy_counts [OF h1 h2 h3 h4 h5 h6] h1 h2 h3 h4 h5 h6 by blast
qed

section \<open>Estimated hours of the persisted course\<close>

text \<open>
  C10.  When \<open>generateCourse\<close> answers 201 for an outline the service returned, the course it
  persisted (and returns) has the outline's \<open>estimatedHours\<close> if that is present and nonzero,
  and 10 if the outline omits it or gives 0.
\<close>

theorem estimatedHours_default:
  assumes "generateCourse JSON_parse s topic sub call = (s', Inr resp)"
    and "status resp = 201"
    and "generateCourse_service JSON_parse call = Inr courseData"
  shows "\<exists>c ms. find (\<lambda>c. c_id c = next_id s) (courses s') = Some c \<and>
           payload resp = Some (c, ms) \<and>
           c_estimatedHours c =
             Some (case cd_estimatedHours courseData of
                     None \<Rightarrow> 10 | Some h \<Rightarrow> if h = 0 then 10 else h)"
proof -
  let ?cid = "next_id s"
  let ?s1 = "s\<lparr>next_id := Suc ?cid\<rparr>"
  let ?c = "new_Course ?cid sub courseData"
  let ?h = "Some (num_or (cd_estimatedHours courseData) 10)"
  have topic: "\<not> (\<not> truthy_str topic \<or> length (trim (the topic)) = 0)"
    using assms(1,2) by (auto simp: generateCourse_def split: if_splits)
  have eq: "generateCourse JSON_parse s topic sub call =
      (case course_save ?s1 ?c of
         Inl e \<Rightarrow> (?s1, Inl e)
       | Inr s2 \<Rightarrow>
           (case cd_modules courseData of
              None \<Rightarrow> (s2, Inl TypeError)
            | Some ms \<Rightarrow>
                (case create_modules s2 ?c 0 ms of
                   (s3, Inl e) \<Rightarrow> (s3, Inl e)
                 | (s3, Inr x) \<Rightarrow>
                     (s3, Inr \<lparr>status = 201, success = True, err = None,
                               payload = populate s3 ?cid\<rparr>))))"
    using topic assms(3) by (simp add: generateCourse_def fresh_id_def Let_def)
  obtain s2 where save: "course_save ?s1 ?c = Inr s2"
    using assms(1) eq by (cases "course_save ?s1 ?c") auto
  obtain ms where ms: "cd_modules courseData = Some ms"
    using assms(1) eq save by (cases "cd_modules courseData") auto
  obtain s3 r3 where cm3: "create_modules s2 ?c 0 ms = (s3, r3)"
    by (cases "create_modules s2 ?c 0 ms")
  obtain c' where r3: "r3 = Inr c'"
    using assms(1) eq save ms cm3 by (cases r3) auto
  have s3: "s3 = s'"
    and resp: "resp = \<lparr>status = 201, success = True, err = None, payload = populate s' ?cid\<rparr>"
    using assms(1) eq save ms cm3 r3 by auto
  have cm: "create_modules s2 ?c 0 ms = (s', Inr c')"
    using cm3 r3 s3 by simp
  have cid: "c_id ?c = ?cid" and h: "c_estimatedHours ?c = ?h"
    by (simp_all add: new_Course_def)
  have "find (\<lambda>x. c_id x = c_id ?c) (courses s2) = Some ?c"
    using save by (auto simp: course_save_def find_upsert split: if_splits)
  from create_modules_course [OF cm this h h] cid
  obtain c1 where c1: "find (\<lambda>x. c_id x = ?cid) (courses s') = Some c1" "c_estimatedHours c1 = ?h"
    by auto
  have "\<exists>ms. payload resp = Some (c1, ms)"
    using resp c1(1) by (simp add: populate_def)
  then show ?thesis
    using c1 by (auto simp: num_or_def split: option.splits)
qed

theorem estimatedHours_default_witness:
  "generateCourse_service (map_of [(''{}'', sample_outline)]) (text_response ''{}'') =
     Inr sample_outline \<and>
   cd_estimatedHours sample_outline = Some 0 \<and>
   (\<exists>s' resp c ms.
      generateCourse (map_of [(''{}'', sample_outline)]) empty_store (Some ''Linear Algebra'')
        ''auth0|u1'' (text_response ''{}'') = (s', Inr resp) \<and>
      status resp = 201 \<and>
      find (\<lambda>c. c_id c = next_id empty_store) (courses s') = Some c \<and>
      payload resp = Some (c, ms) \<and> c_estimatedHours c = Some 10)"
proof -
  let ?g = "generateCourse (map_of [(''{}'', sample_outline)]) empty_store
              (Some ''Linear Algebra'') ''auth0|u1'' (text_response ''{}'')"
  have h0: "cd_estimatedHours sample_outline = Some 0"
    by (simp add: sample_outline_def outline_of_def)
  from sample_run obtain s' where
    g: "?g = (s', Inr \<lparr>status = 201, success = True, err = None, payload = populate s' 0\<rparr>)"
    by blast
  have st: "status \<lparr>status = 201, success = True, err = None, payload = populate s' 0\<rparr> = 201"
    by simp
  from estimatedHours_default [OF g st sample_service] h0
  obtain c ms where c: "find (\<lambda>c. c_id c = next_id empty_store) (courses s') = Some c"
    "payload \<lparr>status = 201, success = True, err = None, payload = populate s' 0\<rparr> = Some (c, ms)"
    "c_estimatedHours c = Some 10"
    by auto
  have "\<exists>s' resp c ms. ?g = (s', Inr resp) \<and> status resp = 201 \<and>
          find (\<lambda>c. c_id c = next_id empty_store) (courses s') = Some c \<and>
          payload resp = Some (c, ms) \<and> c_estimatedHours c = Some 10"
    using g st c by blast
  then show ?thesis
    using sample_service h0 by blast
qed

section \<open>Order values of the persisted modules and lessons\<close>

text \<open>
  C5.  What the code persists: for a validated, storable outline the new modules carry
  \<open>module_orders 0 ms\<close> and the new lessons \<open>lesson_orders ms\<close>, that is the supplied order
  where it is present and not \<open>0\<close>, and the position otherwise.  A supplied \<open>0\<close> is therefore
  replaced by the position.  The instance after the theorem is the failing input: the sample
  outline supplies the orders 5 and 0 for its two modules and 1 and 0 for the two lesson
  stubs of the second; the second module is persisted with order 1 and its second lesson
  with order 1.
\<close>

theorem persisted_orders:
  assumes "store_ok s" and "truthy_str topic" and "trim (the topic) \<noteq> []"
    and "generateCourse_service JSON_parse call = Inr courseData"
    and "cd_modules courseData = Some ms"
    and "outline_storable sub courseData"
  shows "\<exists>s' resp newl. generateCourse JSON_parse s topic sub call = (s', Inr resp) \<and>
           map m_order (modules s') = map m_order (modules s) @ module_orders 0 ms \<and>
           lessons s' = lessons s @ newl \<and> map l_order newl = lesson_orders ms"
proof -
  from generateCourse_ok [OF assms]
  obtain s' newl where
    "generateCourse JSON_parse s topic sub call =
       (s', Inr \<lparr>status = 201, success = True, err = None, payload = populate s' (next_id s)\<rparr>)"
    "map m_order (modules s') = map m_order (modules s) @ module_orders 0 ms"
    "lessons s' = lessons s @ newl" "map l_order newl = lesson_orders ms"
    by blast
  then show ?thesis
    by (intro exI [of _ s'] exI [of _ newl]
          exI [of _ "\<lparr>status = 201, success = True, err = None, payload = populate s' (next_id s)\<rparr>"])
       simp
qed

theorem order_zero_replaced:
  "map md_order sample_modules = [Some 5, Some 0] \<and>
   map (\<lambda>m. map ls_order (arr_or (md_lessons m) [])) sample_modules =
     [[None], [Some 1, Some 0]] \<and>
   map m_order (modules (fst (generateCourse (map_of [(''{}'', sample_outline)]) empty_store
      (Some ''Linear Algebra'') ''auth0|u1'' (text_response ''{}'')))) = [5, 1] \<and>
   map l_order (lessons (fst (generateCourse (map_of [(''{}'', sample_outline)]) empty_store
      (Some ''Linear Algebra'') ''auth0|u1'' (text_response ''{}'')))) = [0, 1, 1]"
proof -
  have a: "map md_order sample_modules = [Some 5, Some 0]"
    by (simp add: sample_modules_def module_outline_def)
  have b: "map (\<lambda>m. map ls_order (arr_or (md_lessons m) [])) sample_modules =
     [[None], [Some 1, Some 0]]"
    by (simp add: sample_modules_def module_outline_def stub_def arr_or_def)
  have mo: "module_orders 0 sample_modules = [5, 1]"
    by code_simp
  have lo: "lesson_orders sample_modules = [0, 1, 1]"
    by code_simp
  have e: "modules empty_store = []" "lessons empty_store = []"
    by (simp_all add: empty_store_def)
  from persisted_orders [OF empty_store_ok conjunct1 [OF sample_topic]
      conjunct2 [OF sample_topic] sample_service sample_modules_eq sample_storable]
  obtain s' resp where
    "generateCourse (map_of [(''{}'', sample_outline)]) empty_store (Some ''Linear Algebra'')
       ''auth0|u1'' (text_response ''{}'') = (s', Inr resp)"
    "map m_order (modules s') = [5, 1]" "map l_order (lessons s') = [0, 1, 1]"
    unfolding e mo lo by auto
  then show ?thesis
    using a b by simp
qed

section \<open>Course creation is not undone when a later step fails\<close>

text \<open>
  C3, as the claim states it, fails: the outline below passes the service's validation, the
  save of its untitled lesson is rejected, and the course and the module saved before it
  stay in the store.
\<close>

theorem partial_hierarchy_counterexample:
  "generateCourse_service (map_of [(''{}'', untitled_stub_outline)]) (text_response ''{}'') =
     Inr untitled_stub_outline \<and>
   snd (generateCourse (map_of [(''{}'', untitled_stub_outline)]) empty_store
      (Some ''Linear Algebra'') ''auth0|u1'' (text_response ''{}'')) =
     Inl (ValidationError [''title'']) \<and>
   map c_id (courses (fst (generateCourse (map_of [(''{}'', untitled_stub_outline)]) empty_store
      (Some ''Linear Algebra'') ''auth0|u1'' (text_response ''{}'')))) = [0] \<and>
   map m_id (modules (fst (generateCourse (map_of [(''{}'', untitled_stub_outline)]) empty_store
      (Some ''Linear Algebra'') ''auth0|u1'' (text_response ''{}'')))) = [1] \<and>
   lessons (fst (generateCourse (map_of [(''{}'', untitled_stub_outline)]) empty_store
      (Some ''Linear Algebra'') ''auth0|u1'' (text_response ''{}''))) = []"
  by code_simp


text \<open>The loops run over an outline in pieces: over a prefix first, then over the rest
  from the store and the document the prefix left.\<close>

lemma create_lessons_append:
  "create_lessons s m j (xs @ ys) =
     (case create_lessons s m j xs of
        (s1, Inl e) \<Rightarrow> (s1, Inl e)
      | (s1, Inr m1) \<Rightarrow> create_lessons s1 m1 (j + length xs) ys)"
proof (induction xs arbitrary: s m j)
  case Nil
  then show ?case by simp
next
  case (Cons x xs)
  show ?case
  proof (cases "lesson_save (snd (fresh_id s)) None (new_Lesson (next_id s) (m_id m) j x)")
    case (Inl e)
    then show ?thesis by (simp add: fresh_id_def)
  next
    case (Inr p)
    obtain s2 l' where p: "p = (s2, l')" by (cases p)
    show ?thesis
    proof (cases "addLesson s2 m (next_id s)")
      case (Inl e)
      with \<open>lesson_save _ _ _ = Inr p\<close> p show ?thesis by (simp add: fresh_id_def)
    next
      case (Inr q)
      obtain s3 m' where q: "q = (s3, m')" by (cases q)
      show ?thesis
        using \<open>lesson_save _ _ _ = Inr p\<close> p Inr q Cons.IH [of s3 m' "Suc j"]
        by (simp add: fresh_id_def split: prod.splits sum.splits)
    qed
  qed
qed

lemma create_modules_append:
  "create_modules s c i (xs @ ys) =
     (case create_modules s c i xs of
        (s1, Inl e) \<Rightarrow> (s1, Inl e)
      | (s1, Inr c1) \<Rightarrow> create_modules s1 c1 (i + length xs) ys)"
proof (induction xs arbitrary: s c i)
  case Nil
  then show ?case by simp
next
  case (Cons x xs)
  let ?m = "new_Module (next_id s) (c_id c) i x"
  show ?case
  proof (cases "module_save (snd (fresh_id s)) ?m")
    case (Inl e)
    then show ?thesis by (simp add: fresh_id_def)
  next
    case (Inr s2)
    show ?thesis
    proof (cases "md_lessons x")
      case None
      with Inr show ?thesis by (simp add: fresh_id_def)
    next
      case (Some stubs)
      obtain s3 r3 where cl: "create_lessons s2 ?m 0 stubs = (s3, r3)"
        by (cases "create_lessons s2 ?m 0 stubs")
      show ?thesis
      proof (cases r3)
        case (Inl e)
        with \<open>module_save _ _ = Inr s2\<close> Some cl show ?thesis by (simp add: fresh_id_def)
      next
        case (Inr m')
        show ?thesis
        proof (cases "addModule s3 c (next_id s)")
          case (Inl e)
          with \<open>module_save _ _ = Inr s2\<close> Some cl \<open>r3 = Inr m'\<close> show ?thesis
            by (simp add: fresh_id_def)
        next
          case (Inr q)
          obtain s4 c' where q: "q = (s4, c')" by (cases q)
          show ?thesis
            using \<open>module_save _ _ = Inr s2\<close> Some cl \<open>r3 = Inr m'\<close> Inr q
              Cons.IH [of s4 c' "Suc i"]
            by (simp add: fresh_id_def split: prod.splits sum.splits)
        qed
      qed
    qed
  qed
qed

lemma create_lessons_stops:
  assumes "stubs_storable j before"
    and "lesson_errors (new_Lesson 0 0 (j + length before) bad) \<noteq> []"
    and "module_errors m = []"
    and "m_id m \<in> set (map m_id (modules s))"
    and "list_all (\<lambda>i. i < next_id s) (map l_id (lessons s))"
    and "list_all (\<lambda>x. m_id x = m_id m \<longrightarrow> m_order x = m_order m) (modules s)"
  shows "\<exists>s' new. create_lessons s m j (before @ bad # after) =
             (s', Inl (ValidationError (lesson_errors (new_Lesson 0 0 (j + length before) bad)))) \<and>
           courses s' = courses s \<and> map m_id (modules s') = map m_id (modules s) \<and>
           lessons s' = lessons s @ new \<and> length new = length before \<and>
           list_all is_placeholder new"
proof -
  from create_lessons_ok [OF assms(1,3,4,5,6)]
  obtain s1 m1 new where ok: "create_lessons s m j before = (s1, Inr m1)"
    and s1: "courses s1 = courses s" "map m_id (modules s1) = map m_id (modules s)"
      "lessons s1 = lessons s @ new" "length new = length before" "list_all is_placeholder new"
    by blast
  let ?l = "new_Lesson (next_id s1) (m_id m1) (j + length before) bad"
  have errs: "lesson_errors ?l = lesson_errors (new_Lesson 0 0 (j + length before) bad)"
    by (rule lesson_errors_new_Lesson)
  have "create_lessons s1 m1 (j + length before) (bad # after) =
          (s1\<lparr>next_id := Suc (next_id s1)\<rparr>, Inl (ValidationError (lesson_errors ?l)))"
    using assms(2) errs by (simp add: fresh_id_def lesson_save_def)
  then have "create_lessons s m j (before @ bad # after) =
          (s1\<lparr>next_id := Suc (next_id s1)\<rparr>,
           Inl (ValidationError (lesson_errors (new_Lesson 0 0 (j + length before) bad))))"
    using ok errs by (simp add: create_lessons_append)
  then show ?thesis
    using s1 by (intro exI [of _ "s1\<lparr>next_id := Suc (next_id s1)\<rparr>"] exI [of _ new]) simp
qed


lemma create_modules_reaches:
  assumes "modules_storable i before" and "course_errors c = []"
    and "c_id c \<in> set (map c_id (courses s))"
    and "list_all (\<lambda>i. i < next_id s) (map m_id (modules s) @ map l_id (lessons s))"
  shows "\<exists>s1 c1 newl. create_modules s c i before = (s1, Inr c1) \<and>
           map c_id (courses s1) = map c_id (courses s) \<and>
           length (modules s1) = length (modules s) + length before \<and>
           lessons s1 = lessons s @ newl \<and> length newl = lesson_total before \<and>
           list_all is_placeholder newl \<and>
           list_all (\<lambda>i. i < next_id s1) (map m_id (modules s1) @ map l_id (lessons s1))"
proof -
  from create_modules_ok [OF assms]
  obtain s1 c1 newm newl where ok: "create_modules s c i before = (s1, Inr c1)"
    and r: "map c_id (courses s1) = map c_id (courses s)"
      "map m_id (modules s1) = map m_id (modules s) @ newm" "length newm = length before"
      "lessons s1 = lessons s @ newl" "length newl = lesson_total before"
      "list_all is_placeholder newl" "next_id s \<le> next_id s1"
      "list_all (\<lambda>i. i < next_id s1) (newm @ map l_id newl)"
    by blast
  have lm: "length (modules s1) = length (modules s) + length before"
    using arg_cong [OF r(2), of length] r(3) by simp
  have "list_all (\<lambda>i. i < next_id s1) (map m_id (modules s1) @ map l_id (lessons s1))"
    using ids_below_mono [OF assms(4) r(7)] r(2,4,8) by simp
  then show ?thesis
    using ok r(1,4,5,6) lm by blast
qed

lemma create_modules_stops_at_module:
  assumes "modules_storable i before" and "course_errors c = []"
    and "c_id c \<in> set (map c_id (courses s))"
    and "list_all (\<lambda>i. i < next_id s) (map m_id (modules s) @ map l_id (lessons s))"
    and "module_errors (new_Module 0 0 (i + length before) bad) \<noteq> []"
  shows "\<exists>s' newl. create_modules s c i (before @ bad # after) =
             (s', Inl (ValidationError (module_errors (new_Module 0 0 (i + length before) bad)))) \<and>
           map c_id (courses s') = map c_id (courses s) \<and>
           length (modules s') = length (modules s) + length before \<and>
           lessons s' = lessons s @ newl \<and> length newl = lesson_total before \<and>
           list_all is_placeholder newl"
proof -
  from create_modules_reaches [OF assms(1-4)]
  obtain s1 c1 newl where ok: "create_modules s c i before = (s1, Inr c1)"
    and r: "map c_id (courses s1) = map c_id (courses s)"
      "length (modules s1) = length (modules s) + length before"
      "lessons s1 = lessons s @ newl" "length newl = lesson_total before"
      "list_all is_placeholder newl"
    by blast
  let ?m = "new_Module (next_id s1) (c_id c1) (i + length before) bad"
  have errs: "module_errors ?m = module_errors (new_Module 0 0 (i + length before) bad)"
    by (rule module_errors_new_Module)
  have "create_modules s1 c1 (i + length before) (bad # after) =
          (s1\<lparr>next_id := Suc (next_id s1)\<rparr>, Inl (ValidationError (module_errors ?m)))"
    using assms(5) errs by (simp add: fresh_id_def module_save_def)
  then have "create_modules s c i (before @ bad # after) =
          (s1\<lparr>next_id := Suc (next_id s1)\<rparr>,
           Inl (ValidationError (module_errors (new_Module 0 0 (i + length before) bad))))"
    using ok errs by (simp add: create_modules_append)
  then show ?thesis
    using r by (intro exI [of _ "s1\<lparr>next_id := Suc (next_id s1)\<rparr>"] exI [of _ newl]) simp
qed

lemma create_modules_stops_at_lesson:
  assumes "modules_storable i before" and "course_errors c = []"
    and "c_id c \<in> set (map c_id (courses s))"
    and "list_all (\<lambda>i. i < next_id s) (map m_id (modules s) @ map l_id (lessons s))"
    and "module_errors (new_Module 0 0 (i + length before) bad) = []"
    and "md_lessons bad = Some (stubs_before @ bad_stub # stubs_after)"
    and "stubs_storable 0 stubs_before"
    and "lesson_errors (new_Lesson 0 0 (length stubs_before) bad_stub) \<noteq> []"
  shows "\<exists>s' newl. create_modules s c i (before @ bad # after) =
             (s', Inl (ValidationError
                         (lesson_errors (new_Lesson 0 0 (length stubs_before) bad_stub)))) \<and>
           map c_id (courses s') = map c_id (courses s) \<and>
           length (modules s') = length (modules s) + length before + 1 \<and>
           lessons s' = lessons s @ newl \<and>
           length newl = lesson_total before + length stubs_before \<and>
           list_all is_placeholder newl"
proof -
  from create_modules_reaches [OF assms(1-4)]
  obtain s1 c1 newl where ok: "create_modules s c i before = (s1, Inr c1)"
    and r: "map c_id (courses s1) = map c_id (courses s)"
      "length (modules s1) = length (modules s) + length before"
      "lessons s1 = lessons s @ newl" "length newl = lesson_total before"
      "list_all is_placeholder newl"
      "list_all (\<lambda>i. i < next_id s1) (map m_id (modules s1) @ map l_id (lessons s1))"
    by blast
  let ?mid = "next_id s1"
  let ?s1' = "s1\<lparr>next_id := Suc ?mid\<rparr>"
  let ?m = "new_Module ?mid (c_id c1) (i + length before) bad"
  let ?s2 = "?s1'\<lparr>modules := modules s1 @ [?m]\<rparr>"
  have errs: "module_errors ?m = []"
    using assms(5) module_errors_new_Module [of ?mid "c_id c1" "i + length before" bad] by simp
  have mid: "m_id ?m = ?mid"
    by (simp add: new_Module_def)
  have old: "list_all (\<lambda>x. m_id x \<noteq> ?mid) (modules s1)"
    using r(6) by (force simp: list_all_iff)
  have fresh: "m_id ?m \<notin> set (map m_id (modules s1))"
    using old mid by (auto simp: list_all_iff)
  have save: "module_save ?s1' ?m = Inr ?s2"
    using errs fresh by (simp add: module_save_def upsert_fresh)
  have mem: "m_id ?m \<in> set (map m_id (modules ?s2))"
    by simp
  have inv2: "list_all (\<lambda>i. i < next_id ?s2) (map l_id (lessons ?s2))"
    using ids_below_mono [OF r(6), of "Suc ?mid"] by simp
  have invo: "list_all (\<lambda>x. m_id x = m_id ?m \<longrightarrow> m_order x = m_order ?m) (modules ?s2)"
    using old mid by (auto simp: list_all_iff)
  have bad': "lesson_errors (new_Lesson 0 0 (0 + length stubs_before) bad_stub) \<noteq> []"
    using assms(8) by simp
  from create_lessons_stops [OF assms(7) bad' errs mem inv2 invo, of stubs_after]
  obtain s3 new where cl: "create_lessons ?s2 ?m 0 (stubs_before @ bad_stub # stubs_after) =
        (s3, Inl (ValidationError (lesson_errors (new_Lesson 0 0 (length stubs_before) bad_stub))))"
    and s3: "courses s3 = courses s1" "map m_id (modules s3) = map m_id (modules s1) @ [?mid]"
      "lessons s3 = lessons s1 @ new" "length new = length stubs_before"
      "list_all is_placeholder new"
    using mid by auto
  have "create_modules s1 c1 (i + length before) (bad # after) =
          (s3, Inl (ValidationError (lesson_errors (new_Lesson 0 0 (length stubs_before) bad_stub))))"
    using save assms(6) cl by (simp add: fresh_id_def)
  then have run: "create_modules s c i (before @ bad # after) =
          (s3, Inl (ValidationError (lesson_errors (new_Lesson 0 0 (length stubs_before) bad_stub))))"
    using ok by (simp add: create_modules_append)
  have lm: "length (modules s3) = length (modules s) + length before + 1"
    using arg_cong [OF s3(2), of length] r(2) by simp
  show ?thesis
    using run r(1,3,4,5) s3(1,3,4,5) lm
    by (intro exI [of _ s3] exI [of _ "newl @ new"]) simp
qed

text \<open>
  C3, amended.  Creation is sequential and nothing is undone.  From a store with fresh
  identifiers and for a usable topic: when the generation of the outline fails, the error
  escapes and the store is the one before the request; when the Course document is rejected,
  its validation error escapes and no course, module or lesson has been added; when the
  module at position \<open>k\<close> is rejected after \<open>k\<close> storable ones, its validation error escapes
  and the store holds the new course, the \<open>k\<close> modules before it and all their lessons, as
  placeholders; when a lesson stub at position \<open>j\<close> of that module is rejected after \<open>j\<close>
  storable ones, its validation error escapes and the store holds the new course, \<open>k + 1\<close>
  modules, the lessons of the first \<open>k\<close> and the \<open>j\<close> lessons before the rejected one.
\<close>

theorem creation_without_rollback:
  assumes "store_ok s" and "truthy_str topic" and "trim (the topic) \<noteq> []"
  shows "(generateCourse_service JSON_parse call = Inl e \<longrightarrow>
            generateCourse JSON_parse s topic sub call = (s, Inl e)) \<and>
         (generateCourse_service JSON_parse call = Inr courseData \<and>
            course_errors (new_Course 0 sub courseData) \<noteq> [] \<longrightarrow>
            (\<exists>s'. generateCourse JSON_parse s topic sub call =
                    (s', Inl (ValidationError (course_errors (new_Course 0 sub courseData)))) \<and>
                  courses s' = courses s \<and> modules s' = modules s \<and> lessons s' = lessons s)) \<and>
         (generateCourse_service JSON_parse call = Inr courseData \<and>
            course_errors (new_Course 0 sub courseData) = [] \<and>
            cd_modules courseData = Some (before @ bad # after) \<and>
            modules_storable 0 before \<and>
            module_errors (new_Module 0 0 (length before) bad) \<noteq> [] \<longrightarrow>
            (\<exists>s' newl. generateCourse JSON_parse s topic sub call =
                    (s', Inl (ValidationError
                                (module_errors (new_Module 0 0 (length before) bad)))) \<and>
                  map c_id (courses s') = map c_id (courses s) @ [next_id s] \<and>
                  length (modules s') = length (modules s) + length before \<and>
                  lessons s' = lessons s @ newl \<and> length newl = lesson_total before \<and>
                  list_all is_placeholder newl)) \<and>
         (generateCourse_service JSON_parse call = Inr courseData \<and>
            course_errors (new_Course 0 sub courseData) = [] \<and>
            cd_modules courseData = Some (before @ bad # after) \<and>
            modules_storable 0 before \<and>
            module_errors (new_Module 0 0 (length before) bad) = [] \<and>
            md_lessons bad = Some (stubs_before @ bad_stub # stubs_after) \<and>
            stubs_storable 0 stubs_before \<and>
            lesson_errors (new_Lesson 0 0 (length stubs_before) bad_stub) \<noteq> [] \<longrightarrow>
            (\<exists>s' newl. generateCourse JSON_parse s topic sub call =
                    (s', Inl (ValidationError
                                (lesson_errors (new_Lesson 0 0 (length stubs_before) bad_stub)))) \<and>
                  map c_id (courses s') = map c_id (courses s) @ [next_id s] \<and>
                  length (modules s') = length (modules s) + length before + 1 \<and>
                  lessons s' = lessons s @ newl \<and>
                  length newl = lesson_total before + length stubs_before \<and>
                  list_all is_placeholder newl))"
proof -
  let ?cid = "next_id s"
  let ?s1 = "s\<lparr>next_id := Suc ?cid\<rparr>"
  have a: "generateCourse_service JSON_parse call = Inl e \<longrightarrow>
            generateCourse JSON_parse s topic sub call = (s, Inl e)"
    using assms(2,3) by (simp add: generateCourse_def)
  have b: "generateCourse_service JSON_parse call = Inr courseData \<and>
            course_errors (new_Course 0 sub courseData) \<noteq> [] \<longrightarrow>
            (\<exists>s'. generateCourse JSON_parse s topic sub call =
                    (s', Inl (ValidationError (course_errors (new_Course 0 sub courseData)))) \<and>
                  courses s' = courses s \<and> modules s' = modules s \<and> lessons s' = lessons s)"
  proof
    assume h: "generateCourse_service JSON_parse call = Inr courseData \<and>
            course_errors (new_Course 0 sub courseData) \<noteq> []"
    have "generateCourse JSON_parse s topic sub call =
            (?s1, Inl (ValidationError (course_errors (new_Course 0 sub courseData))))"
      using assms(2,3) h course_errors_new_Course [of ?cid sub courseData]
      by (simp add: generateCourse_def fresh_id_def course_save_def)
    then show "\<exists>s'. generateCourse JSON_parse s topic sub call =
                    (s', Inl (ValidationError (course_errors (new_Course 0 sub courseData)))) \<and>
                  courses s' = courses s \<and> modules s' = modules s \<and> lessons s' = lessons s"
      by (intro exI [of _ ?s1]) simp
  qed
  have rest: "generateCourse_service JSON_parse call = Inr courseData \<Longrightarrow>
      course_errors (new_Course 0 sub courseData) = [] \<Longrightarrow>
      cd_modules courseData = Some ms \<Longrightarrow>
      create_modules (?s1\<lparr>courses := courses s @ [new_Course ?cid sub courseData]\<rparr>)
        (new_Course ?cid sub courseData) 0 ms = (s', Inl err) \<Longrightarrow>
      generateCourse JSON_parse s topic sub call = (s', Inl err)" for ms s' err
  proof -
    assume h: "generateCourse_service JSON_parse call = Inr courseData"
      "course_errors (new_Course 0 sub courseData) = []"
      "cd_modules courseData = Some ms"
      "create_modules (?s1\<lparr>courses := courses s @ [new_Course ?cid sub courseData]\<rparr>)
        (new_Course ?cid sub courseData) 0 ms = (s', Inl err)"
    let ?c = "new_Course ?cid sub courseData"
    have errs: "course_errors ?c = []"
      using h(2) course_errors_new_Course [of ?cid sub courseData] by simp
    have "c_id ?c \<notin> set (map c_id (courses s))"
      using assms(1) by (auto simp: store_ok_def list_all_iff new_Course_def)
    then have save: "course_save ?s1 ?c = Inr (?s1\<lparr>courses := courses s @ [?c]\<rparr>)"
      using errs by (simp add: course_save_def upsert_fresh)
    show ?thesis
      using assms(2,3) h(1,3,4) save by (simp add: generateCourse_def fresh_id_def)
  qed
  let ?c = "new_Course ?cid sub courseData"
  let ?s2 = "?s1\<lparr>courses := courses s @ [?c]\<rparr>"
  have pre: "course_errors (new_Course 0 sub courseData) = [] \<Longrightarrow> course_errors ?c = []"
    using course_errors_new_Course [of ?cid sub courseData] by simp
  have mem: "c_id ?c \<in> set (map c_id (courses ?s2))"
    by simp
  have inv: "list_all (\<lambda>i. i < next_id ?s2) (map m_id (modules ?s2) @ map l_id (lessons ?s2))"
    using ids_below_mono [of "next_id s" _ "Suc ?cid"] assms(1) by (simp add: store_ok_def)
  have cs: "map c_id (courses ?s2) = map c_id (courses s) @ [?cid]"
    by (simp add: new_Course_def)
  have c: "generateCourse_service JSON_parse call = Inr courseData \<and>
            course_errors (new_Course 0 sub courseData) = [] \<and>
            cd_modules courseData = Some (before @ bad # after) \<and>
            modules_storable 0 before \<and>
            module_errors (new_Module 0 0 (length before) bad) \<noteq> [] \<longrightarrow>
            (\<exists>s' newl. generateCourse JSON_parse s topic sub call =
                    (s', Inl (ValidationError
                                (module_errors (new_Module 0 0 (length before) bad)))) \<and>
                  map c_id (courses s') = map c_id (courses s) @ [next_id s] \<and>
                  length (modules s') = length (modules s) + length before \<and>
                  lessons s' = lessons s @ newl \<and> length newl = lesson_total before \<and>
                  list_all is_placeholder newl)"
  proof
    assume h: "generateCourse_service JSON_parse call = Inr courseData \<and>
            course_errors (new_Course 0 sub courseData) = [] \<and>
            cd_modules courseData = Some (before @ bad # after) \<and>
            modules_storable 0 before \<and>
            module_errors (new_Module 0 0 (length before) bad) \<noteq> []"
    then have bad: "module_errors (new_Module 0 0 (0 + length before) bad) \<noteq> []"
      by simp
    from create_modules_stops_at_module [OF _ pre mem inv bad, of after] h
    obtain s' newl where r: "create_modules ?s2 ?c 0 (before @ bad # after) =
          (s', Inl (ValidationError (module_errors (new_Module 0 0 (length before) bad))))"
        "map c_id (courses s') = map c_id (courses ?s2)"
        "length (modules s') = length (modules ?s2) + length before"
        "lessons s' = lessons ?s2 @ newl" "length newl = lesson_total before"
        "list_all is_placeholder newl"
      by auto
    have "generateCourse JSON_parse s topic sub call =
            (s', Inl (ValidationError (module_errors (new_Module 0 0 (length before) bad))))"
      using rest [OF _ _ _ r(1)] h by blast
    then show "\<exists>s' newl. generateCourse JSON_parse s topic sub call =
                    (s', Inl (ValidationError
                                (module_errors (new_Module 0 0 (length before) bad)))) \<and>
                  map c_id (courses s') = map c_id (courses s) @ [next_id s] \<and>
                  length (modules s') = length (modules s) + length before \<and>
                  lessons s' = lessons s @ newl \<and> length newl = lesson_total before \<and>
                  list_all is_placeholder newl"
      using r(2-6) cs by (intro exI [of _ s'] exI [of _ newl]) simp
  qed
  have d: "generateCourse_service JSON_parse call = Inr courseData \<and>
            course_errors (new_Course 0 sub courseData) = [] \<and>
            cd_modules courseData = Some (before @ bad # after) \<and>
            modules_storable 0 before \<and>
            module_errors (new_Module 0 0 (length before) bad) = [] \<and>
            md_lessons bad = Some (stubs_before @ bad_stub # stubs_after) \<and>
            stubs_storable 0 stubs_before \<and>
            lesson_errors (new_Lesson 0 0 (length stubs_before) bad_stub) \<noteq> [] \<longrightarrow>
            (\<exists>s' newl. generateCourse JSON_parse s topic sub call =
                    (s', Inl (ValidationError
                                (lesson_errors (new_Lesson 0 0 (length stubs_before) bad_stub)))) \<and>
                  map c_id (courses s') = map c_id (courses s) @ [next_id s] \<and>
                  length (modules s') = length (modules s) + length before + 1 \<and>
                  lessons s' = lessons s @ newl \<and>
                  length newl = lesson_total before + length stubs_before \<and>
                  list_all is_placeholder newl)"
  proof
    assume h: "generateCourse_service JSON_parse call = Inr courseData \<and>
            course_errors (new_Course 0 sub courseData) = [] \<and>
            cd_modules courseData = Some (before @ bad # after) \<and>
            modules_storable 0 before \<and>
            module_errors (new_Module 0 0 (length before) bad) = [] \<and>
            md_lessons bad = Some (stubs_before @ bad_stub # stubs_after) \<and>
            stubs_storable 0 stubs_before \<and>
            lesson_errors (new_Lesson 0 0 (length stubs_before) bad_stub) \<noteq> []"
    then have ok: "module_errors (new_Module 0 0 (0 + length before) bad) = []"
      by simp
    from create_modules_stops_at_lesson [OF _ pre mem inv ok, of stubs_before bad_stub
        stubs_after after] h
    obtain s' newl where r: "create_modules ?s2 ?c 0 (before @ bad # after) =
          (s', Inl (ValidationError
                      (lesson_errors (new_Lesson 0 0 (length stubs_before) bad_stub))))"
        "map c_id (courses s') = map c_id (courses ?s2)"
        "length (modules s') = length (modules ?s2) + length before + 1"
        "lessons s' = lessons ?s2 @ newl"
        "length newl = lesson_total before + length stubs_before"
        "list_all is_placeholder newl"
      by auto
    have "generateCourse JSON_parse s topic sub call =
            (s', Inl (ValidationError
                        (lesson_errors (new_Lesson 0 0 (length stubs_before) bad_stub))))"
      using rest [OF _ _ _ r(1)] h by blast
    then show "\<exists>s' newl. generateCourse JSON_parse s topic sub call =
                    (s', Inl (ValidationError
                                (lesson_errors (new_Lesson 0 0 (length stubs_before) bad_stub)))) \<and>
                  map c_id (courses s') = map c_id (courses s) @ [next_id s] \<and>
                  length (modules s') = length (modules s) + length before + 1 \<and>
                  lessons s' = lessons s @ newl \<and>
                  length newl = lesson_total before + length stubs_before \<and>
                  list_all is_placeholder newl"
      using r(2-6) cs by (intro exI [of _ s'] exI [of _ newl]) simp
  qed
  show ?thesis
    using a b c d by blast
qed

theorem creation_without_rollback_witness:
  "snd (generateCourse (map_of [(''{}'', partial_outline)]) empty_store
      (Some ''Linear Algebra'') ''auth0|u1'' (text_response ''{}'')) =
     Inl (ValidationError [''title'']) \<and>
   map c_id (courses (fst (generateCourse (map_of [(''{}'', partial_outline)]) empty_store
      (Some ''Linear Algebra'') ''auth0|u1'' (text_response ''{}'')))) = [0] \<and>
   length (modules (fst (generateCourse (map_of [(''{}'', partial_outline)]) empty_store
      (Some ''Linear Algebra'') ''auth0|u1'' (text_response ''{}'')))) = 2 \<and>
   length (lessons (fst (generateCourse (map_of [(''{}'', partial_outline)]) empty_store
      (Some ''Linear Algebra'') ''auth0|u1'' (text_response ''{}'')))) = 2 \<and>
   list_all is_placeholder
     (lessons (fst (generateCourse (map_of [(''{}'', partial_outline)]) empty_store
        (Some ''Linear Algebra'') ''auth0|u1'' (text_response ''{}''))))"
proof -
  let ?before = "[module_outline ''Vectors'' None [stub (Some ''Basics'') None]]"
  let ?bad = "module_outline ''Matrices'' None [stub (Some ''Products'') None, stub None None]"
  let ?g = "generateCourse (map_of [(''{}'', partial_outline)]) empty_store
      (Some ''Linear Algebra'') ''auth0|u1'' (text_response ''{}'')"
  have service: "generateCourse_service (map_of [(''{}'', partial_outline)]) (text_response ''{}'') =
      Inr partial_outline"
    by code_simp
  have course: "course_errors (new_Course 0 ''auth0|u1'' partial_outline) = []"
    by code_simp
  have ms: "cd_modules partial_outline = Some (?before @ ?bad # [])"
    by (simp add: partial_outline_def outline_of_def)
  have before: "modules_storable 0 ?before"
    by code_simp
  have bad: "module_errors (new_Module 0 0 (length ?before) ?bad) = []"
    by code_simp
  have stubs: "md_lessons ?bad = Some ([stub (Some ''Products'') None] @ stub None None # [])"
    by (simp add: module_outline_def)
  have stubs_before: "stubs_storable 0 [stub (Some ''Products'') None]"
    by code_simp
  have errs: "lesson_errors (new_Lesson 0 0 (length [stub (Some ''Products'') None]) (stub None None)) =
      [''title'']"
    by code_simp
  have total: "lesson_total ?before = 1"
    by code_simp
  have e: "courses empty_store = []" "modules empty_store = []" "lessons empty_store = []"
    "next_id empty_store = 0"
    by (simp_all add: empty_store_def)
  from creation_without_rollback [OF empty_store_ok conjunct1 [OF sample_topic]
      conjunct2 [OF sample_topic],
      where JSON_parse = "map_of [(''{}'', partial_outline)]" and call = "text_response ''{}''"
        and sub = "''auth0|u1''" and courseData = partial_outline and before = ?before
        and bad = ?bad and after = "[]" and stubs_before = "[stub (Some ''Products'') None]"
        and bad_stub = "stub None None" and stubs_after = "[]"]
  obtain s' newl where g: "?g = (s', Inl (ValidationError [''title'']))"
    and c: "map c_id (courses s') = [0]" and m: "length (modules s') = 2"
    and l: "lessons s' = newl" "length newl = 2" "list_all is_placeholder newl"
    using service course ms before bad stubs stubs_before errs total e by auto
  show ?thesis
    unfolding g using c m l by simp
qed

section \<open>A failed generation leaves the placeholder in place\<close>

text \<open>Each way the service can fail (a rejected call, an envelope without text, text that
  does not parse, a parsed lesson that fails validation) is an \<open>Inl\<close> of the service.\<close>

lemma generateLesson_service_failures:
  "generateLesson_service JSON_parse (Inl e) = Inl (Failed ''Failed to generate lesson: '' e)"
  "extractText response = Inl e \<Longrightarrow>
     generateLesson_service JSON_parse (Inr response) =
       Inl (Failed ''Failed to generate lesson: '' e)"
  "extractText response = Inr text \<Longrightarrow> parseJSONResponse JSON_parse text = Inl e \<Longrightarrow>
     generateLesson_service JSON_parse (Inr response) =
       Inl (Failed ''Failed to generate lesson: '' e)"
  "extractText response = Inr text \<Longrightarrow> parseJSONResponse JSON_parse text = Inr lessonData \<Longrightarrow>
     validateLessonStructure lessonData = Inl e \<Longrightarrow>
     generateLesson_service JSON_parse (Inr response) =
       Inl (Failed ''Failed to generate lesson: '' e)"
  by (simp_all add: generateLesson_service_def then_try_def)

lemma getLesson_load_Generate:
  assumes "getLesson_load s lid sub = Generate lesson"
  shows "find (\<lambda>l. l_id l = lid) (lessons s) = Some lesson \<and> \<not> l_isEnriched lesson"
  using assms
  by (auto simp: getLesson_load_def split: option.splits if_splits)

text \<open>
  C2, as the claim states it, fails in its last part: after a failed generation the response
  is a success response with no error in it.
\<close>

theorem failed_generation_counterexample:
  "getLesson (map_of []) sample_store 2 ''auth0|u1'' (Inl (TransportError ''timeout'')) =
     (sample_store,
      Inr \<lparr>status = 200, success = True, err = None, payload = Some sample_lesson\<rparr>)"
  by code_simp

text \<open>
  C2, amended.  When the read of a lesson reaches the generation call and the service fails,
  the store is unchanged, the lesson is still stored with \<open>isEnriched = false\<close> and its
  content, the next read reaches the generation call again, and the caller gets status 200,
  \<open>success = true\<close>, no error, and the stored placeholder lesson.
\<close>

theorem failed_generation_keeps_placeholder:
  assumes "getLesson_load s lid sub = Generate lesson"
    and "generateLesson_service JSON_parse call = Inl e"
  shows "getLesson JSON_parse s lid sub call =
           (s, Inr \<lparr>status = 200, success = True, err = None, payload = Some lesson\<rparr>) \<and>
         find (\<lambda>l. l_id l = lid) (lessons s) = Some lesson \<and> \<not> l_isEnriched lesson \<and>
         getLesson_load (fst (getLesson JSON_parse s lid sub call)) lid sub = Generate lesson"
  using assms getLesson_load_Generate [OF assms(1)]
  by (simp add: getLesson_def getLesson_commit_def)

theorem failed_generation_keeps_placeholder_witness:
  "getLesson_load sample_store 2 ''auth0|u1'' = Generate sample_lesson \<and>
   generateLesson_service (map_of []) (Inl (TransportError ''timeout'')) =
     Inl (Failed ''Failed to generate lesson: '' (TransportError ''timeout'')) \<and>
   getLesson (map_of []) sample_store 2 ''auth0|u1'' (Inl (TransportError ''timeout'')) =
     (sample_store,
      Inr \<lparr>status = 200, success = True, err = None, payload = Some sample_lesson\<rparr>) \<and>
   find (\<lambda>l. l_id l = 2) (lessons sample_store) = Some sample_lesson \<and>
   \<not> l_isEnriched sample_lesson"
proof -
  have h1: "getLesson_load sample_store 2 ''auth0|u1'' = Generate sample_lesson"
    by code_simp
  have h2: "generateLesson_service (map_of []) (Inl (TransportError ''timeout'')) =
     Inl (Failed ''Failed to generate lesson: '' (TransportError ''timeout''))"
    by (rule generateLesson_service_failures(1))
  show ?thesis
    using failed_generation_keeps_placeholder [OF h1 h2] h1 h2 by simp
qed

section \<open>Unrecognized block types reject the lesson\<close>

lemma recognized_truthy: "recognized b \<Longrightarrow> truthy_str (b_type b) \<and> the (b_type b) \<in> set validTypes"
  by (auto simp: recognized_def truthy_str_def validTypes_def split: option.splits)

lemma validate_blocks_accepts:
  "validate_blocks index bs = Inr () \<longleftrightarrow> list_all recognized bs"
proof (induction bs arbitrary: index)
  case Nil
  then show ?case by simp
next
  case (Cons b bs)
  show ?case
  proof (cases "recognized b")
    case True
    with Cons recognized_truthy [OF True] show ?thesis by simp
  next
    case False
    then show ?thesis
      by (auto simp: recognized_def truthy_str_def split: option.splits)
  qed
qed

lemma validate_blocks_rejects:
  assumes "list_all recognized pre" and "b_type b = Some kind" and "kind \<noteq> []"
    and "kind \<notin> set validTypes"
  shows "validate_blocks index (pre @ b # post) =
           Inl (Error (''Invalid content block type: '' @ kind))"
  using assms(1)
proof (induction pre arbitrary: index)
  case Nil
  then show ?case using assms(2,3,4) by (simp add: truthy_str_def)
next
  case (Cons p pre)
  then show ?case using recognized_truthy [of p] by simp
qed

text \<open>
  C7, as the claim states it, fails in what the error names: an unrecognized type at index 0
  and one at index 1 give the same error, which carries the kind and no index.
\<close>

theorem block_index_not_named_counterexample:
  "validateLessonStructure (lesson_body [block_of_type ''quiz'']) =
     Inl (Error ''Invalid content block type: quiz'') \<and>
   validateLessonStructure (lesson_body [paragraph_block ''Intro'', block_of_type ''quiz'']) =
     Inl (Error ''Invalid content block type: quiz'')"
  by code_simp


lemma validate_blocks_first_offender:
  assumes "find (\<lambda>b. \<not> recognized b) bs = Some b"
  shows "validate_blocks index bs =
           Inl (block_error (index + length (takeWhile recognized bs)) b)"
  using assms
proof (induction bs arbitrary: index)
  case Nil
  then show ?case by simp
next
  case (Cons x xs)
  show ?case
  proof (cases "recognized x")
    case True
    with Cons recognized_truthy [OF True] show ?thesis by simp
  next
    case False
    then have "x = b"
      using Cons.prems by simp
    then show ?thesis
      using False
      by (auto simp: block_error_def recognized_def truthy_str_def split: option.splits)
  qed
qed

lemma validateLessonStructure_accepts:
  "validateLessonStructure lessonData = Inr () \<longleftrightarrow>
     truthy_str (ld_title lessonData) \<and>
     (\<exists>bs. ld_content lessonData = Some bs \<and> bs \<noteq> [] \<and> list_all recognized bs)"
  by (auto simp: validateLessonStructure_def Let_def validate_blocks_accepts
           split: if_splits option.splits)

text \<open>
  C7, amended.  Validation accepts exactly the lessons that have a title and a non-empty
  list of blocks, each of one of the seven recognized kinds.  A lesson with a block whose
  type is missing or not recognized is rejected as a whole, with a plain \<open>Error\<close>: the
  missing-fields message when the lesson has no title; otherwise the message of the first
  such block, which names its kind and not its index when the block has a non-empty type,
  and its index and no kind when it has none.  The read then leaves the store as it was and
  answers with the placeholder lesson.
\<close>

theorem unknown_block_type_rejected:
  assumes "ld_content lessonData = Some bs"
    and "find (\<lambda>b. \<not> recognized b) bs = Some b"
    and "extractText response = Inr (Some text)"
    and "JSON_parse (clean_response text) = Some lessonData"
    and "getLesson_load s lid sub = Generate lesson"
  shows "validateLessonStructure lessonData =
           Inl (if truthy_str (ld_title lessonData)
                then block_error (length (takeWhile recognized bs)) b
                else Error ''Lesson data missing required fields: title'') \<and>
         getLesson JSON_parse s lid sub (Inr response) =
           (s, Inr \<lparr>status = 200, success = True, err = None, payload = Some lesson\<rparr>) \<and>
         (\<forall>accepted. validateLessonStructure accepted = Inr () \<longleftrightarrow>
            truthy_str (ld_title accepted) \<and>
            (\<exists>blocks. ld_content accepted = Some blocks \<and> blocks \<noteq> [] \<and>
               list_all recognized blocks))"
proof -
  have ne: "bs \<noteq> []"
    using assms(2) by auto
  have v: "validateLessonStructure lessonData =
           Inl (if truthy_str (ld_title lessonData)
                then block_error (length (takeWhile recognized bs)) b
                else Error ''Lesson data missing required fields: title'')"
    using assms(1) ne validate_blocks_first_offender [OF assms(2), of 0]
    by (simp add: validateLessonStructure_def)
  have p: "parseJSONResponse JSON_parse (Some text) = Inr lessonData"
    using assms(4) by (simp add: parseJSONResponse_def)
  have g: "getLesson JSON_parse s lid sub (Inr response) =
           (s, Inr \<lparr>status = 200, success = True, err = None, payload = Some lesson\<rparr>)"
    using assms(5) generateLesson_service_failures(4) [OF assms(3) p v]
    by (simp add: getLesson_def getLesson_commit_def)
  show ?thesis
    using v g validateLessonStructure_accepts by blast
qed

theorem unknown_block_type_rejected_witness:
  "validateLessonStructure (lesson_body [paragraph_block ''Intro'', block_of_type ''quiz'']) =
     Inl (Error ''Invalid content block type: quiz'') \<and>
   getLesson (map_of [(''{}'', lesson_body [paragraph_block ''Intro'', block_of_type ''quiz''])])
     sample_store 2 ''auth0|u1'' (text_response ''{}'') =
     (sample_store,
      Inr \<lparr>status = 200, success = True, err = None, payload = Some sample_lesson\<rparr>)"
proof -
  let ?bs = "[paragraph_block ''Intro'', block_of_type ''quiz'']"
  let ?ld = "lesson_body ?bs"
  let ?response = "\<lparr>e_text = TextStr ''{}'', e_candidates = []\<rparr>"
  have h1: "ld_content ?ld = Some ?bs"
    by (simp add: lesson_body_def)
  have r: "recognized (paragraph_block ''Intro'')" "\<not> recognized (block_of_type ''quiz'')"
    by (simp_all add: recognized_def paragraph_block_def block_of_type_def validTypes_def)
  have h2: "find (\<lambda>b. \<not> recognized b) ?bs = Some (block_of_type ''quiz'')"
    using r by simp
  have h3: "extractText ?response = Inr (Some ''{}'')"
    by (simp add: extractText_def)
  have h4: "map_of [(''{}'', ?ld)] (clean_response ''{}'') = Some ?ld"
    by code_simp
  have h5: "getLesson_load sample_store 2 ''auth0|u1'' = Generate sample_lesson"
    by code_simp
  have t: "truthy_str (ld_title ?ld)"
    by (simp add: lesson_body_def truthy_str_def)
  have e: "block_error (length (takeWhile recognized ?bs)) (block_of_type ''quiz'') =
             Error ''Invalid content block type: quiz''"
    using r by (simp add: block_error_def block_of_type_def truthy_str_def)
  from unknown_block_type_rejected
      [where JSON_parse = "map_of [(''{}'', ?ld)]", OF h1 h2 h3 h4 h5]
  show ?thesis
    using t e by (simp add: text_response_def)
qed

section \<open>Cleaning and parsing the response text\<close>






lemma backtick_not_space: "\<not> is_space (CHR 0x60)"
  by (simp add: is_space_def)









section \<open>Topic suggestions\<close>




section \<open>Reading time after a content replacement\<close>

text \<open>A save with modified content recomputes the reading time: this is what the
  enrichment commit and the block operations go through.\<close>

lemma save_recomputes_readingTime:
  assumes "lesson_save s loaded l = Inr (s', saved)"
    and "loaded = None \<or> l_content l \<noteq> l_content (the loaded)"
  shows "l_content saved = l_content l \<and> l_readingTime saved = Some (reading_time (l_content l))"
  using assms
  by (auto simp: lesson_save_def pre_save_def Let_def split: if_splits option.splits)

lemma find_id: "find (\<lambda>l. l_id l = lid) ls = Some l \<Longrightarrow> l_id l = lid"
  by (induction ls) (auto split: if_splits)

text \<open>
  C8.  What the code does in \<open>updateLesson\<close>: the update query writes the new content and
  leaves \<open>readingTime\<close> as it was.  The instance after the theorem is the failing input: the
  sample lesson has reading time 1, its content is replaced by a paragraph of 201 words, whose
  reading time is 2, and the stored reading time is still 1.
\<close>

theorem update_keeps_readingTime:
  assumes "updateLesson s lid sub body = (s', Inr resp)" and "status resp = 200"
  shows "\<exists>old new. find (\<lambda>l. l_id l = lid) (lessons s) = Some old \<and>
           payload resp = Some new \<and>
           find (\<lambda>l. l_id l = lid) (lessons s') = Some new \<and>
           l_content new = (case ub_content body of None \<Rightarrow> l_content old | Some c \<Rightarrow> c) \<and>
           l_readingTime new = l_readingTime old"
proof -
  obtain old where old: "find (\<lambda>l. l_id l = lid) (lessons s) = Some old"
    using assms by (cases "find (\<lambda>l. l_id l = lid) (lessons s)") (auto simp: updateLesson_def)
  obtain m where m: "find (\<lambda>m. m_id m = l_module old) (modules s) = Some m"
    using assms old
    by (cases "find (\<lambda>m. m_id m = l_module old) (modules s)") (auto simp: updateLesson_def)
  obtain c where c: "find (\<lambda>c. c_id c = m_course m) (courses s) = Some c"
    using assms old m
    by (cases "find (\<lambda>c. c_id c = m_course m) (courses s)") (auto simp: updateLesson_def)
  have own: "c_creator c = sub"
    using assms old m c by (auto simp: updateLesson_def split: if_splits)
  let ?new = "apply_update body old"
  have upd: "findByIdAndUpdate s old body = Inr (s\<lparr>lessons := upsert l_id ?new (lessons s)\<rparr>, ?new)"
    and s': "s' = s\<lparr>lessons := upsert l_id ?new (lessons s)\<rparr>"
    and resp: "payload resp = Some ?new"
    using assms old m c own
    by (auto simp: updateLesson_def findByIdAndUpdate_def Let_def split: if_splits)
  have id: "l_id ?new = lid"
    using find_id [OF old] by (simp add: apply_update_def)
  have "find (\<lambda>l. l_id l = lid) (lessons s') = Some ?new"
    using id by (simp add: s' find_upsert)
  moreover have "l_content ?new = (case ub_content body of None \<Rightarrow> l_content old | Some c \<Rightarrow> c)"
    "l_readingTime ?new = l_readingTime old"
    by (simp_all add: apply_update_def)
  ultimately show ?thesis
    using old resp by blast
qed

theorem update_keeps_readingTime_witness:
  "map l_content (lessons (fst (updateLesson sample_store 2 ''auth0|u1''
      (content_update long_content)))) = [long_content] \<and>
   map l_readingTime (lessons (fst (updateLesson sample_store 2 ''auth0|u1''
      (content_update long_content)))) = [Some 1] \<and>
   wordCount long_content = 201 \<and> reading_time long_content = 2"
proof -
  let ?u = "updateLesson sample_store 2 ''auth0|u1'' (content_update long_content)"
  have st: "case snd ?u of Inl e \<Rightarrow> False | Inr resp \<Rightarrow> status resp = 200"
    by code_simp
  then obtain resp where r: "snd ?u = Inr resp" "status resp = 200"
    by (cases "snd ?u") auto
  have u: "?u = (fst ?u, Inr resp)"
    using r(1) by (simp add: prod_eq_iff)
  have old: "find (\<lambda>l. l_id l = 2) (lessons sample_store) = Some sample_lesson"
    by code_simp
  have ids: "map l_id (lessons (fst ?u)) = [2]"
    by code_simp
  have wc: "wordCount long_content = 201"
    by code_simp
  have rt: "reading_time long_content = 2"
    by (simp add: reading_time_def wc)
  from update_keeps_readingTime [OF u r(2)] old
  obtain new where new: "find (\<lambda>l. l_id l = 2) (lessons (fst ?u)) = Some new"
    "l_content new = long_content" "l_readingTime new = l_readingTime sample_lesson"
    by (auto simp: content_update_def)
  obtain x where x: "lessons (fst ?u) = [x]"
    using ids by (cases "lessons (fst ?u)") auto
  have "x = new"
    using new(1) x ids by (auto split: if_splits)
  then show ?thesis
    using x new(2,3) wc rt by (simp add: sample_lesson_def)
qed

section \<open>Concurrent first reads\<close>
















end
